theory Spec2Isabelle
  imports Main "HOL-Library.Sublist"
begin

section \<open>Python strings\<close>

text \<open>
  A Python \<^verbatim>\<open>str\<close> is a sequence of Unicode code points, so it is modelled as a list of
  natural numbers (one per code point); \<^verbatim>\<open>len\<close> is \<open>length\<close>. A \<^verbatim>\<open>bytes\<close> value is a
  list of numbers below 256. The constants of \<^verbatim>\<open>drugs_builder.py\<close> are written with
  their code points; ASCII text is written with \<open>ascii\<close>.
\<close>

type_synonym ustring = "nat list"

definition ascii :: "string \<Rightarrow> ustring" where
  "ascii s = map of_char s"

text \<open>
  \<^verbatim>\<open>\s\<close> of a \<^verbatim>\<open>str\<close> pattern and \<^verbatim>\<open>str.strip()\<close> use the same notion of white space:
  TAB..CR, FS..US, SPACE, NEL, NBSP, U+1680, U+2000..U+200A, U+2028, U+2029, U+202F,
  U+205F and the ideographic space U+3000.
\<close>

definition is_space :: "nat \<Rightarrow> bool" where
  "is_space c \<longleftrightarrow>
     (0x09 \<le> c \<and> c \<le> 0x0D) \<or> (0x1C \<le> c \<and> c \<le> 0x20) \<or> c = 0x85 \<or> c = 0xA0 \<or>
     c = 0x1680 \<or> (0x2000 \<le> c \<and> c \<le> 0x200A) \<or> c = 0x2028 \<or> c = 0x2029 \<or>
     c = 0x202F \<or> c = 0x205F \<or> c = 0x3000"

text \<open>\<^verbatim>\<open>s.strip()\<close>: white space removed at both ends.\<close>

definition strip :: "ustring \<Rightarrow> ustring" where
  "strip s = rev (dropWhile is_space (rev (dropWhile is_space s)))"

text \<open>
  \<^verbatim>\<open>re.sub(r"\s+", " ", s)\<close>: every maximal run of white space becomes one SPACE.
\<close>

function collapse_ws :: "ustring \<Rightarrow> ustring" where
  "collapse_ws [] = []"
| "collapse_ws (c # cs) =
     (if is_space c then 0x20 # collapse_ws (dropWhile is_space cs)
      else c # collapse_ws cs)"
  by pat_completeness auto
termination
  by (relation "measure length") (auto simp: less_Suc_eq_le length_dropWhile_le)

section \<open>Regular expressions\<close>

text \<open>
  The patterns of the source are values of \<open>regex\<close>: the constructs they use, and no
  others. \<open>Cls neg sp cs\<close> is a bracket class with the literal members \<open>cs\<close>, with
  \<^verbatim>\<open>\s\<close> among them when \<open>sp\<close> holds, negated when \<open>neg\<close> holds; \<open>Dot\<close> is
  \<^verbatim>\<open>.\<close> (any character but the newline); \<open>Rep r lo hi\<close> is \<^verbatim>\<open>r{lo,hi}\<close>.
\<close>

datatype regex =
    Eps
  | Lit nat
  | Cls bool bool "nat list"
  | Dot
  | Seq regex regex
  | Alt regex regex
  | Star regex
  | Rep regex nat nat

text \<open>
  \<^verbatim>\<open>re.IGNORECASE\<close>: characters are compared after case folding. The folding is
  modelled on the letters A..Z; the characters of the patterns of the source (CJK
  ideographs, brackets, colons) have no case.
\<close>

definition lower :: "nat \<Rightarrow> nat" where
  "lower c = (if 0x41 \<le> c \<and> c \<le> 0x5A then c + 0x20 else c)"

definition ci_eq :: "bool \<Rightarrow> nat \<Rightarrow> nat \<Rightarrow> bool" where
  "ci_eq ic a b \<longleftrightarrow> a = b \<or> (ic \<and> lower a = lower b)"

definition in_class :: "bool \<Rightarrow> bool \<Rightarrow> bool \<Rightarrow> nat list \<Rightarrow> nat \<Rightarrow> bool" where
  "in_class ic neg sp cs x \<longleftrightarrow> (((sp \<and> is_space x) \<or> (\<exists>c\<in>set cs. ci_eq ic c x)) \<noteq> neg)"

fun rsize :: "regex \<Rightarrow> nat" where
  "rsize Eps = 1"
| "rsize (Lit c) = 1"
| "rsize (Cls neg sp cs) = 1"
| "rsize Dot = 1"
| "rsize (Seq a b) = rsize a + rsize b + 1"
| "rsize (Alt a b) = rsize a + rsize b + 1"
| "rsize (Star a) = rsize a + 1"
| "rsize (Rep a lo hi) = rsize a + hi + 1"

text \<open>
  The backtracking matcher. \<open>rmatch ic r s\<close> lists what is left of \<open>s\<close> after each way
  of matching \<open>r\<close> at its start, in the order in which the backtracking engine of
  \<^verbatim>\<open>re\<close> tries them: the left alternative before the right one, and one more iteration
  of a (greedy) repetition before stopping. The engine takes the first that lets the
  rest of the pattern match, so a match of the whole pattern at this position is the
  head of the list. An iteration of \<^verbatim>\<open>*\<close> that consumes nothing is not repeated.
\<close>

function rmatch :: "bool \<Rightarrow> regex \<Rightarrow> ustring \<Rightarrow> ustring list" where
  "rmatch ic Eps s = [s]"
| "rmatch ic (Lit c) s =
     (case s of [] \<Rightarrow> [] | x # xs \<Rightarrow> if ci_eq ic c x then [xs] else [])"
| "rmatch ic (Cls neg sp cs) s =
     (case s of [] \<Rightarrow> [] | x # xs \<Rightarrow> if in_class ic neg sp cs x then [xs] else [])"
| "rmatch ic Dot s =
     (case s of [] \<Rightarrow> [] | x # xs \<Rightarrow> if x \<noteq> 0x0A then [xs] else [])"
| "rmatch ic (Seq a b) s = concat (map (rmatch ic b) (rmatch ic a s))"
| "rmatch ic (Alt a b) s = rmatch ic a s @ rmatch ic b s"
| "rmatch ic (Star a) s =
     concat (map (\<lambda>t. if length t < length s then rmatch ic (Star a) t else [])
                 (rmatch ic a s)) @ [s]"
| "rmatch ic (Rep a lo hi) s =
     (if hi = 0 then [s]
      else concat (map (rmatch ic (Rep a (lo - 1) (hi - 1))) (rmatch ic a s))
           @ (if lo = 0 then [s] else []))"
  by pat_completeness auto
termination
  by (relation "measures [\<lambda>(ic, r, s). rsize r, \<lambda>(ic, r, s). length s]") auto

text \<open>
  \<^verbatim>\<open>re.search\<close>: the first position, from the left, where the pattern matches; the
  result is the span \<open>(m.start(), m.end())\<close>. \<open>search_at\<close> scans the rest \<open>s\<close> of the
  text, \<open>i\<close> characters in; the position after the last character is tried too.
\<close>

fun search_at :: "bool \<Rightarrow> regex \<Rightarrow> nat \<Rightarrow> ustring \<Rightarrow> (nat \<times> nat) option" where
  "search_at ic r i [] =
     (case rmatch ic r [] of t # _ \<Rightarrow> Some (i, i) | [] \<Rightarrow> None)"
| "search_at ic r i (x # xs) =
     (case rmatch ic r (x # xs) of
        t # _ \<Rightarrow> Some (i, i + (length (x # xs) - length t))
      | [] \<Rightarrow> search_at ic r (Suc i) xs)"

definition re_search :: "bool \<Rightarrow> regex \<Rightarrow> ustring \<Rightarrow> (nat \<times> nat) option" where
  "re_search ic r text = search_at ic r 0 text"

text \<open>A sequence of patterns, a literal string, and an alternation of several patterns.\<close>

fun seqs :: "regex list \<Rightarrow> regex" where
  "seqs [] = Eps"
| "seqs (r # rs) = Seq r (seqs rs)"

definition lits :: "ustring \<Rightarrow> regex" where
  "lits cs = seqs (map Lit cs)"

fun alts :: "regex list \<Rightarrow> regex" where
  "alts [] = Cls False False []"
| "alts [r] = r"
| "alts (r # rs) = Alt r (alts rs)"

section \<open>Constants of the source\<close>

text \<open>
  The brackets U+3010 and U+3011 of a section heading, and the white space class
  \<^verbatim>\<open>\s\<close>.
\<close>

definition LB :: nat where "LB = 0x3010"
definition RB :: nat where "RB = 0x3011"

definition ws :: regex where
  "ws = Cls False True []"

text \<open>
  The keys of the dictionaries \<^verbatim>\<open>out\<close>, \<^verbatim>\<open>parsed\<close> and \<^verbatim>\<open>picked\<close> are the four strings
  U+9002 U+5E94 U+75C7 (indications), U+7981 U+5FCC U+75C7 (contraindications),
  U+836F U+7269 U+76F8 U+4E92 U+4F5C U+7528 (interactions) and
  U+598A U+5A20 U+5206 U+7EA7 (pregnancy category). Every dictionary has exactly these
  keys, so a key is a value of \<open>field\<close> and a dictionary is a function on it.
\<close>

datatype field = Indications | Contraindications | Interactions | Pregnancy

text \<open>
  The tail \<^verbatim>\<open>[..]*\<close> of every heading pattern: the full-width colon U+FF1A, the
  colon and white space, any number of times.
\<close>

definition colons :: regex where
  "colons = Star (Cls False True [0xFF1A, 0x3A])"

text \<open>
  \<^verbatim>\<open>SECTION_PATTERNS\<close>, in the order of the source. Each pattern is a non-capturing
  group of alternatives followed by \<open>colons\<close>:
  \<^item> indications: the bracketed heading; U+9002 \<^verbatim>\<open>\s*\<close> U+5E94 \<^verbatim>\<open>\s*\<close> U+75C7;
    U+9002 U+5E94 U+8BC1; U+9002 U+5E94 U+75C7 U+72B6;
  \<^item> contraindications: the bracketed U+7981 U+5FCC; U+7981 \<^verbatim>\<open>\s*\<close> U+5FCC;
    U+7981 U+5FCC U+75C7;
  \<^item> interactions: the bracketed heading; U+76F8 U+4E92 U+4F5C U+7528; the heading
    with "drug-drug" in front;
  \<^item> pregnancy: the bracketed heading of the section on pregnant and lactating women;
    the same without brackets; and two shorter headings.
\<close>

definition pat_indications :: regex where
  "pat_indications =
     Seq (alts [lits [LB, 0x9002, 0x5E94, 0x75C7, RB],
                seqs [Lit 0x9002, Star ws, Lit 0x5E94, Star ws, Lit 0x75C7],
                lits [0x9002, 0x5E94, 0x8BC1],
                lits [0x9002, 0x5E94, 0x75C7, 0x72B6]])
         colons"

definition pat_contraindications :: regex where
  "pat_contraindications =
     Seq (alts [lits [LB, 0x7981, 0x5FCC, RB],
                seqs [Lit 0x7981, Star ws, Lit 0x5FCC],
                lits [0x7981, 0x5FCC, 0x75C7]])
         colons"

definition pat_interactions :: regex where
  "pat_interactions =
     Seq (alts [lits [LB, 0x836F, 0x7269, 0x76F8, 0x4E92, 0x4F5C, 0x7528, RB],
                lits [0x76F8, 0x4E92, 0x4F5C, 0x7528],
                lits [0x836F, 0x7269, 0x2D, 0x836F, 0x7269, 0x76F8, 0x4E92, 0x4F5C, 0x7528]])
         colons"

definition pat_pregnancy :: regex where
  "pat_pregnancy =
     Seq (alts [lits [LB, 0x5B55, 0x5987, 0x53CA, 0x54FA, 0x4E73, 0x671F, 0x7528, 0x836F, RB],
                lits [0x5B55, 0x5987, 0x53CA, 0x54FA, 0x4E73, 0x671F, 0x7528, 0x836F],
                lits [0x5B55, 0x671F, 0x7528, 0x836F],
                lits [0x598A, 0x5A20, 0x7528, 0x836F]])
         colons"

definition SECTION_PATTERNS :: "(field \<times> regex) list" where
  "SECTION_PATTERNS =
     [(Indications, pat_indications),
      (Contraindications, pat_contraindications),
      (Interactions, pat_interactions),
      (Pregnancy, pat_pregnancy)]"

text \<open>\<^verbatim>\<open>NEXT_SECTION_RE\<close>: an opening bracket, 1 to 20 characters that are not the closing
  bracket, the closing bracket. It is compiled without flags.\<close>

definition NEXT_SECTION_RE :: regex where
  "NEXT_SECTION_RE = seqs [Lit LB, Rep (Cls True False [RB]) 1 20, Lit RB]"

text \<open>
  The keyword patterns of the pregnancy heuristic. Prohibition: U+7981 U+7528;
  U+7EDD U+5BF9 U+7981 U+7528; U+7981 U+6B62 U+4F7F U+7528. Caution: U+614E U+7528;
  U+6743 U+8861 U+5229 U+5F0A; U+98CE U+9669 \<^verbatim>\<open>.*\<close> U+6536 U+76CA.
\<close>

definition kw_prohibit :: "ustring list" where
  "kw_prohibit = [[0x7981, 0x7528], [0x7EDD, 0x5BF9, 0x7981, 0x7528], [0x7981, 0x6B62, 0x4F7F, 0x7528]]"

definition kw_caution :: "ustring list" where
  "kw_caution = [[0x614E, 0x7528], [0x6743, 0x8861, 0x5229, 0x5F0A]]"

definition kw_risk :: ustring where "kw_risk = [0x98CE, 0x9669]"
definition kw_benefit :: ustring where "kw_benefit = [0x6536, 0x76CA]"

definition pat_prohibit :: regex where
  "pat_prohibit = alts (map lits kw_prohibit)"

definition pat_caution :: regex where
  "pat_caution = alts (map lits kw_caution @ [seqs [lits kw_risk, Star Dot, lits kw_benefit]])"

text \<open>
  The labels: the sentinel U+672A U+6807 U+6CE8 ("not annotated"), the two labels of the
  heuristic (the keyword, then "(grade not annotated)" in full-width parentheses), the
  provenance labels and the marker of a record no source answered for.
\<close>

definition UNANNOTATED :: ustring where
  "UNANNOTATED = [0x672A, 0x6807, 0x6CE8]"

definition LABEL_PROHIBITED :: ustring where
  "LABEL_PROHIBITED = [0x7981, 0x7528, 0xFF08, 0x672A, 0x6807, 0x6CE8, 0x5206, 0x7EA7, 0xFF09]"

definition LABEL_CAUTION :: ustring where
  "LABEL_CAUTION = [0x614E, 0x7528, 0xFF08, 0x672A, 0x6807, 0x6CE8, 0x5206, 0x7EA7, 0xFF09]"

definition SRC_ONLINE :: ustring where
  "SRC_ONLINE = ascii ''NMPA'' @ [0x8BF4, 0x660E, 0x4E66, 0xFF08, 0x5728, 0x7EBF, 0xFF09]"

definition SRC_OFFLINE :: ustring where
  "SRC_OFFLINE = ascii ''NMPA'' @ [0x8BF4, 0x660E, 0x4E66, 0xFF08, 0x79BB, 0x7EBF, 0xFF09]"

definition SRC_DRUGBANK :: ustring where
  "SRC_DRUGBANK = ascii ''DrugBank''"

definition SRC_NONE :: ustring where
  "SRC_NONE = [0x672A, 0x83B7, 0x53D6, 0xFF08, 0x8BF7, 0x8865, 0x5145, 0x6E90, 0xFF09]"

section \<open>Section extraction and the label parser\<close>

text \<open>
  \<^verbatim>\<open>slice_section(text, start_pat)\<close>: the heading is searched ignoring case; the body
  runs from the end of the match to the start of the next bracketed heading, or to the
  end of the text; it is collapsed and stripped, and an empty body is \<^verbatim>\<open>None\<close>.
\<close>

definition slice_section :: "ustring \<Rightarrow> regex \<Rightarrow> ustring option" where
  "slice_section text start_pat =
     (case re_search True start_pat text of
        None \<Rightarrow> None
      | Some (ms, me) \<Rightarrow>
          (let start = me;
               tail = drop start text;
               body = (case re_search False NEXT_SECTION_RE tail of
                         Some (ns, ne) \<Rightarrow> take ns tail
                       | None \<Rightarrow> tail);
               body' = strip (collapse_ws body)
           in if body' \<noteq> [] then Some body' else None))"

text \<open>
  \<^verbatim>\<open>parse_cn_label_text(full_text)\<close>. The loop over \<^verbatim>\<open>SECTION_PATTERNS\<close> stores every
  chunk found but the pregnancy one; the pregnancy entry is then always set, by the
  keyword heuristic on the pregnancy section, to one of the three labels.
\<close>

definition parse_loop_step ::
  "ustring \<Rightarrow> field \<times> regex \<Rightarrow> (field \<Rightarrow> ustring option) \<Rightarrow> (field \<Rightarrow> ustring option)" where
  "parse_loop_step text kp out =
     (case slice_section text (snd kp) of
        Some chunk \<Rightarrow> if chunk \<noteq> [] \<and> fst kp \<noteq> Pregnancy then out(fst kp := Some chunk) else out
      | None \<Rightarrow> out)"

definition parse_cn_label_text :: "ustring \<Rightarrow> (field \<Rightarrow> ustring option)" where
  "parse_cn_label_text full_text =
     (let out = (\<lambda>k. None);
          text = collapse_ws full_text;
          out = fold (parse_loop_step text) SECTION_PATTERNS out;
          preg_txt = slice_section text (snd (last SECTION_PATTERNS))
      in case preg_txt of
           Some p \<Rightarrow>
             if p \<noteq> [] then
               if re_search False pat_prohibit p \<noteq> None then out(Pregnancy := Some LABEL_PROHIBITED)
               else if re_search False pat_caution p \<noteq> None then out(Pregnancy := Some LABEL_CAUTION)
               else out(Pregnancy := Some UNANNOTATED)
             else out(Pregnancy := Some UNANNOTATED)
         | None \<Rightarrow> out(Pregnancy := Some UNANNOTATED))"


section \<open>Python values, exceptions and the record\<close>

text \<open>
  What \<^verbatim>\<open>resp.json()\<close> returns, and what a field of a record can hold: \<^verbatim>\<open>None\<close>, a
  truth value, a number, a string, a list or a dictionary (its items in order). A JSON
  number is modelled as an integer.
\<close>

datatype pyval =
    PNone
  | PBool bool
  | PInt int
  | PStr ustring
  | PList "pyval list"
  | PDict "(ustring \<times> pyval) list"

text \<open>Truth value testing, as \<^verbatim>\<open>if x\<close>, \<^verbatim>\<open>x or y\<close>, \<^verbatim>\<open>all\<close> and \<^verbatim>\<open>any\<close> do it.\<close>

fun truthy :: "pyval \<Rightarrow> bool" where
  "truthy PNone = False"
| "truthy (PBool b) = b"
| "truthy (PInt i) = (i \<noteq> 0)"
| "truthy (PStr s) = (s \<noteq> [])"
| "truthy (PList xs) = (xs \<noteq> [])"
| "truthy (PDict kvs) = (kvs \<noteq> [])"

text \<open>An \<^verbatim>\<open>Optional[str]\<close> as a Python value, and its truth value.\<close>

fun of_opt :: "ustring option \<Rightarrow> pyval" where
  "of_opt None = PNone"
| "of_opt (Some s) = PStr s"

definition truthy_opt :: "ustring option \<Rightarrow> bool" where
  "truthy_opt t = truthy (of_opt t)"

text \<open>
  The exceptions. \<open>RequestException\<close> stands for \<^verbatim>\<open>requests.RequestException\<close> and its
  subclasses (connection errors, timeouts); the others are not instances of it. All
  are instances of \<^verbatim>\<open>Exception\<close>, so \<^verbatim>\<open>except Exception\<close> catches each of them.
\<close>

datatype exn = RequestException | AttributeError | ValueError | OSError | OtherError

definition ebind :: "exn + 'a \<Rightarrow> ('a \<Rightarrow> exn + 'b) \<Rightarrow> exn + 'b" where
  "ebind m f = (case m of Inl e \<Rightarrow> Inl e | Inr x \<Rightarrow> f x)"

text \<open>\<^verbatim>\<open>a or b\<close>, where evaluating either side can raise; \<open>b\<close> is evaluated only when
  \<open>a\<close> is false.\<close>

definition or_e :: "exn + pyval \<Rightarrow> exn + pyval \<Rightarrow> exn + pyval" where
  "or_e a b = ebind a (\<lambda>x. if truthy x then Inr x else b)"

text \<open>\<^verbatim>\<open>x.get(k)\<close>: a dictionary answers (\<^verbatim>\<open>None\<close> for a missing key); any other value has
  no attribute \<^verbatim>\<open>get\<close>.\<close>

fun py_get :: "pyval \<Rightarrow> ustring \<Rightarrow> exn + pyval" where
  "py_get (PDict kvs) k = Inr (case map_of kvs k of Some v \<Rightarrow> v | None \<Rightarrow> PNone)"
| "py_get v k = Inl AttributeError"

text \<open>\<^verbatim>\<open>DrugRecord\<close>: a field is declared \<^verbatim>\<open>Optional[str]\<close>; at run time it holds whatever
  was assigned, which for a value picked from a DrugBank response is any JSON value.\<close>

record DrugRecord =
  name :: ustring
  indications :: pyval
  contraindications :: pyval
  interactions :: pyval
  pregnancy_category :: pyval
  source :: "ustring option"

definition new_record :: "ustring \<Rightarrow> DrugRecord" where
  "new_record n =
     \<lparr>name = n, indications = PNone, contraindications = PNone, interactions = PNone,
      pregnancy_category = PNone, source = None\<rparr>"

text \<open>The four content fields, by key.\<close>

fun get_field :: "field \<Rightarrow> DrugRecord \<Rightarrow> pyval" where
  "get_field Indications r = indications r"
| "get_field Contraindications r = contraindications r"
| "get_field Interactions r = interactions r"
| "get_field Pregnancy r = pregnancy_category r"

definition content_fields :: "DrugRecord \<Rightarrow> pyval list" where
  "content_fields r = [indications r, contraindications r, interactions r, pregnancy_category r]"

section \<open>Retry with exponential backoff\<close>

text \<open>
  The decorator \<^verbatim>\<open>@retry(reraise=True, stop=stop_after_attempt(3),
  wait=wait_exponential(multiplier=1, min=1, max=8),
  retry=retry_if_exception_type((requests.RequestException,)))\<close>.
  \<open>wait_exponential\<close> is the wait after attempt \<open>n\<close> (counted from 1), in seconds.
  \<open>retry_loop\<close> runs attempt \<open>n\<close>, whose outcome is \<open>f n\<close>: a result is returned; an
  exception that is not retried propagates; a retried one propagates when attempt \<open>n\<close>
  was the last allowed, and otherwise the loop sleeps and runs the next attempt. The
  value is the outcome, the number of attempts made and the sleeps in order.
\<close>

definition wait_exponential :: "nat \<Rightarrow> nat \<Rightarrow> nat \<Rightarrow> nat \<Rightarrow> nat" where
  "wait_exponential multiplier mn mx n = max (max 0 mn) (min (multiplier * 2 ^ (n - 1)) mx)"

function retry_loop ::
  "(exn \<Rightarrow> bool) \<Rightarrow> nat \<Rightarrow> (nat \<Rightarrow> nat) \<Rightarrow> (nat \<Rightarrow> exn + 'a) \<Rightarrow> nat \<Rightarrow> nat list
     \<Rightarrow> (exn + 'a) \<times> nat \<times> nat list" where
  "retry_loop retry_on stop_n wait f n slept =
     (case f n of
        Inr v \<Rightarrow> (Inr v, n, slept)
      | Inl e \<Rightarrow>
          if \<not> retry_on e then (Inl e, n, slept)
          else if stop_n \<le> n then (Inl e, n, slept)
          else retry_loop retry_on stop_n wait f (Suc n) (slept @ [wait n]))"
  by pat_completeness auto
termination
  by (relation "measure (\<lambda>(retry_on, stop_n, wait, f, n, slept). stop_n - n)") auto

definition is_request_exception :: "exn \<Rightarrow> bool" where
  "is_request_exception e \<longleftrightarrow> e = RequestException"

definition retry3 :: "(nat \<Rightarrow> exn + 'a) \<Rightarrow> (exn + 'a) \<times> nat \<times> nat list" where
  "retry3 f = retry_loop is_request_exception 3 (wait_exponential 1 1 8) f 1 []"

section \<open>The outside world\<close>

text \<open>
  An HTTP response: its status code, its body, and what \<^verbatim>\<open>resp.json()\<close> gives (the
  parsed body, or the exception it raises on a body that is not JSON).
\<close>

record response =
  status_code :: nat
  content :: "nat list"
  json :: "exn + pyval"

text \<open>
  Everything the program reads from outside or gets from a library:
  \<^item> \<open>nmpa_http url n\<close>, \<open>db_http url name n\<close>: the outcome of the \<open>n\<close>-th attempt of
    \<^verbatim>\<open>sess.get\<close> for a request (a response, or the exception raised); \<open>name\<close> is the
    \<^verbatim>\<open>name\<close> query parameter, when there is one;
  \<^item> \<open>db_api_key\<close>, \<open>db_base\<close>: the environment variables of the DrugBank client;
  \<^item> \<open>chardet_detect\<close>: the \<^verbatim>\<open>encoding\<close> entry of \<^verbatim>\<open>chardet.detect\<close>;
  \<^item> \<open>codec_decode enc b\<close>: \<^verbatim>\<open>b.decode(enc, errors="ignore")\<close> for an encoding other
    than UTF-8 (it raises for an unknown encoding);
  \<^item> \<open>soup_text html\<close>: the text of the article container that BeautifulSoup finds,
    \<^verbatim>\<open>get_text(separator="\n")\<close>;
  \<^item> \<open>str_of v\<close>: \<^verbatim>\<open>str(v)\<close> for a value that is not a string;
  \<^item> \<open>offline_scan name folder\<close>: \<^verbatim>\<open>scan_offline_label(name, folder)\<close>, the text of the
    first matching local file of more than 50 characters, if any.
\<close>

record world =
  nmpa_http :: "ustring \<Rightarrow> nat \<Rightarrow> exn + response"
  db_http :: "ustring \<Rightarrow> ustring option \<Rightarrow> nat \<Rightarrow> exn + response"
  db_api_key :: "ustring option"
  db_base :: ustring
  chardet_detect :: "nat list \<Rightarrow> ustring option"
  codec_decode :: "ustring \<Rightarrow> nat list \<Rightarrow> exn + ustring"
  soup_text :: "ustring \<Rightarrow> exn + ustring"
  str_of :: "pyval \<Rightarrow> ustring"
  offline_scan :: "ustring \<Rightarrow> ustring option \<Rightarrow> exn + ustring option"

section \<open>The text normalizer\<close>

text \<open>
  \<^verbatim>\<open>bytes.decode("utf-8", errors="ignore")\<close>: well-formed sequences are decoded
  (no overlong forms, no surrogates, nothing above U+10FFFF); a byte that does not
  start one is dropped and decoding goes on at the next byte.
\<close>

definition is_cont :: "nat \<Rightarrow> bool" where
  "is_cont b \<longleftrightarrow> 0x80 \<le> b \<and> b \<le> 0xBF"

definition ok_second3 :: "nat \<Rightarrow> nat \<Rightarrow> bool" where
  "ok_second3 b c \<longleftrightarrow>
     (if b = 0xE0 then 0xA0 \<le> c \<and> c \<le> 0xBF
      else if b = 0xED then 0x80 \<le> c \<and> c \<le> 0x9F
      else is_cont c)"

definition ok_second4 :: "nat \<Rightarrow> nat \<Rightarrow> bool" where
  "ok_second4 b c \<longleftrightarrow>
     (if b = 0xF0 then 0x90 \<le> c \<and> c \<le> 0xBF
      else if b = 0xF4 then 0x80 \<le> c \<and> c \<le> 0x8F
      else is_cont c)"

fun utf8_decode_ignore :: "nat list \<Rightarrow> ustring" where
  "utf8_decode_ignore [] = []"
| "utf8_decode_ignore (b # bs) =
     (if b < 0x80 then b # utf8_decode_ignore bs
      else if 0xC2 \<le> b \<and> b \<le> 0xDF then
        (case bs of
           c1 # r \<Rightarrow>
             if is_cont c1 then ((b - 0xC0) * 64 + (c1 - 0x80)) # utf8_decode_ignore r
             else utf8_decode_ignore bs
         | _ \<Rightarrow> utf8_decode_ignore bs)
      else if 0xE0 \<le> b \<and> b \<le> 0xEF then
        (case bs of
           c1 # c2 # r \<Rightarrow>
             if ok_second3 b c1 \<and> is_cont c2
             then ((b - 0xE0) * 4096 + (c1 - 0x80) * 64 + (c2 - 0x80)) # utf8_decode_ignore r
             else utf8_decode_ignore bs
         | _ \<Rightarrow> utf8_decode_ignore bs)
      else if 0xF0 \<le> b \<and> b \<le> 0xF4 then
        (case bs of
           c1 # c2 # c3 # r \<Rightarrow>
             if ok_second4 b c1 \<and> is_cont c2 \<and> is_cont c3
             then ((b - 0xF0) * 262144 + (c1 - 0x80) * 4096 + (c2 - 0x80) * 64 + (c3 - 0x80))
                  # utf8_decode_ignore r
             else utf8_decode_ignore bs
         | _ \<Rightarrow> utf8_decode_ignore bs)
      else utf8_decode_ignore bs)"

text \<open>\<^verbatim>\<open>b.decode(enc, errors="ignore")\<close>.\<close>

definition py_decode :: "world \<Rightarrow> ustring \<Rightarrow> nat list \<Rightarrow> exn + ustring" where
  "py_decode w enc b =
     (if enc = ascii ''utf-8'' then Inr (utf8_decode_ignore b) else codec_decode w enc b)"

text \<open>
  \<^verbatim>\<open>ensure_utf8(text_bytes)\<close> on a \<^verbatim>\<open>bytes\<close> value: the detected encoding, or UTF-8 when
  none is reported; any exception of the decoding is caught and the bytes are decoded
  as UTF-8.
\<close>

definition ensure_utf8 :: "world \<Rightarrow> nat list \<Rightarrow> ustring" where
  "ensure_utf8 w text_bytes =
     (let enc = (case chardet_detect w text_bytes of
                   Some e \<Rightarrow> if e \<noteq> [] then e else ascii ''utf-8''
                 | None \<Rightarrow> ascii ''utf-8'')
      in case py_decode w enc text_bytes of
           Inr s \<Rightarrow> s
         | Inl e \<Rightarrow> utf8_decode_ignore text_bytes)"


section \<open>The NMPA client\<close>

text \<open>
  \<^verbatim>\<open>NMPAClient._get(url)\<close>: one attempt is \<^verbatim>\<open>sess.get\<close>, and a status other than 200
  raises \<^verbatim>\<open>RequestException\<close>; the attempts run under \<open>retry3\<close>.
\<close>

definition nmpa_attempt :: "world \<Rightarrow> ustring \<Rightarrow> nat \<Rightarrow> exn + response" where
  "nmpa_attempt w url n =
     ebind (nmpa_http w url n)
       (\<lambda>resp. if status_code resp \<noteq> 200 then Inl RequestException else Inr resp)"

definition NMPA_get :: "world \<Rightarrow> ustring \<Rightarrow> (exn + response) \<times> nat \<times> nat list" where
  "NMPA_get w url = retry3 (nmpa_attempt w url)"

definition NMPA_BASE :: ustring where
  "NMPA_BASE = ascii ''https://www.nmpa.gov.cn/datasearch/''"

text \<open>
  \<^verbatim>\<open>NMPAClient.search_label_urls(drug_name)\<close>: the home page of the data search site is
  requested; an exception gives the empty list, and so does a response, since the
  site has no stable public search interface.
\<close>

definition NMPA_search_label_urls :: "world \<Rightarrow> ustring \<Rightarrow> ustring list" where
  "NMPA_search_label_urls w drug_name =
     (let search_url = NMPA_BASE @ ascii ''home-index.html''
      in case fst (NMPA_get w search_url) of
           Inl e \<Rightarrow> []
         | Inr resp \<Rightarrow> [])"

text \<open>\<^verbatim>\<open>re.sub(r"\n+", "\n", text)\<close>: a run of newlines becomes one.\<close>

function collapse_nl :: "ustring \<Rightarrow> ustring" where
  "collapse_nl [] = []"
| "collapse_nl (c # cs) =
     (if c = 0x0A then 0x0A # collapse_nl (dropWhile (\<lambda>x. x = 0x0A) cs)
      else c # collapse_nl cs)"
  by pat_completeness auto
termination
  by (relation "measure length") (auto simp: less_Suc_eq_le length_dropWhile_le)

text \<open>
  \<^verbatim>\<open>NMPAClient.fetch_label_text(url)\<close>: the page is fetched, decoded, reduced to the text
  of its article container, its newlines collapsed, and stripped; any exception
  gives \<^verbatim>\<open>None\<close>.
\<close>

definition NMPA_fetch_label_text :: "world \<Rightarrow> ustring \<Rightarrow> ustring option" where
  "NMPA_fetch_label_text w url =
     (case fst (NMPA_get w url) of
        Inl e \<Rightarrow> None
      | Inr r \<Rightarrow>
          (let html = ensure_utf8 w (content r)
           in case soup_text w html of
                Inl e \<Rightarrow> None
              | Inr text \<Rightarrow> Some (strip (collapse_nl text))))"

section \<open>The DrugBank client\<close>

text \<open>\<^verbatim>\<open>s.rstrip("/")\<close> and \<^verbatim>\<open>s.lstrip("/")\<close>.\<close>

definition rstrip_slash :: "ustring \<Rightarrow> ustring" where
  "rstrip_slash s = rev (dropWhile (\<lambda>c. c = 0x2F) (rev s))"

definition lstrip_slash :: "ustring \<Rightarrow> ustring" where
  "lstrip_slash s = dropWhile (\<lambda>c. c = 0x2F) s"

text \<open>\<^verbatim>\<open>DrugBankClient.available()\<close>: an API key is configured and not empty.\<close>

definition DB_available :: "world \<Rightarrow> bool" where
  "DB_available w = truthy_opt (db_api_key w)"

text \<open>
  \<^verbatim>\<open>DrugBankClient._get(path, params)\<close>: one attempt is \<^verbatim>\<open>sess.get\<close>, a status other
  than 200 raises \<^verbatim>\<open>RequestException\<close>, and the body is parsed by \<^verbatim>\<open>resp.json()\<close>,
  inside the retried function.
\<close>

definition db_attempt :: "world \<Rightarrow> ustring \<Rightarrow> ustring option \<Rightarrow> nat \<Rightarrow> exn + pyval" where
  "db_attempt w url params n =
     ebind (db_http w url params n)
       (\<lambda>resp. if status_code resp \<noteq> 200 then Inl RequestException else json resp)"

definition DB_get :: "world \<Rightarrow> ustring \<Rightarrow> ustring option \<Rightarrow> (exn + pyval) \<times> nat \<times> nat list" where
  "DB_get w path params =
     (let url = rstrip_slash (db_base w) @ ascii ''/'' @ lstrip_slash path
      in retry3 (db_attempt w url params))"

text \<open>\<^verbatim>\<open>str(v)\<close>, as an f-string formats a value.\<close>

definition py_str :: "world \<Rightarrow> pyval \<Rightarrow> ustring" where
  "py_str w v = (case v of PStr s \<Rightarrow> s | _ \<Rightarrow> str_of w v)"

text \<open>
  \<^verbatim>\<open>DrugBankClient.query_by_name(name)\<close>: the search by name, its first hit, and the
  detail of that hit when it has an identifier; any exception gives \<^verbatim>\<open>None\<close>.
\<close>

definition query_by_name_body :: "world \<Rightarrow> ustring \<Rightarrow> exn + pyval" where
  "query_by_name_body w nm =
     ebind (fst (DB_get w (ascii ''drugs'') (Some nm)))
       (\<lambda>j. if \<not> truthy j then Inr PNone
            else
              (let first = (case j of PList xs \<Rightarrow> hd xs | _ \<Rightarrow> j)
               in ebind (or_e (py_get first (ascii ''id'')) (py_get first (ascii ''drugbank_id'')))
                    (\<lambda>drug_id.
                       if \<not> truthy drug_id then Inr first
                       else fst (DB_get w (ascii ''drugs/'' @ py_str w drug_id) None))))"

definition DB_query_by_name :: "world \<Rightarrow> ustring \<Rightarrow> pyval" where
  "DB_query_by_name w nm =
     (case query_by_name_body w nm of Inl e \<Rightarrow> PNone | Inr v \<Rightarrow> v)"

text \<open>
  \<^verbatim>\<open>get_nested(d, *keys, default)\<close>, the helper of \<^verbatim>\<open>pick_fields\<close>.
\<close>

fun get_nested :: "pyval \<Rightarrow> ustring list \<Rightarrow> pyval \<Rightarrow> exn + pyval" where
  "get_nested cur [] dflt = Inr (if cur \<noteq> PNone then cur else dflt)"
| "get_nested cur (k # ks) dflt =
     (if cur = PNone then Inr dflt
      else ebind (py_get cur k) (\<lambda>v. get_nested v ks dflt))"

text \<open>
  The loop of \<^verbatim>\<open>pick_fields\<close> over the first 30 interaction entries: an entry with a
  description gives the snippet "partner: description".
\<close>

fun snippets_loop :: "world \<Rightarrow> pyval list \<Rightarrow> ustring list \<Rightarrow> exn + ustring list" where
  "snippets_loop w [] snippets = Inr snippets"
| "snippets_loop w (it # its) snippets =
     ebind (or_e (py_get it (ascii ''description'')) (py_get it (ascii ''text'')))
       (\<lambda>desc.
          ebind (or_e (or_e (py_get it (ascii ''name'')) (py_get it (ascii ''drug''))) (Inr (PStr [])))
            (\<lambda>partner.
               snippets_loop w its
                 (if truthy desc then snippets @ [py_str w partner @ ascii '': '' @ py_str w desc]
                  else snippets)))"

text \<open>\<^verbatim>\<open>sep.join(xs)\<close>.\<close>

fun join :: "ustring \<Rightarrow> ustring list \<Rightarrow> ustring" where
  "join sep [] = []"
| "join sep [x] = x"
| "join sep (x # xs) = x @ sep @ join sep xs"

text \<open>
  \<^verbatim>\<open>DrugBankClient.pick_fields(detail)\<close>. It is not wrapped in a \<^verbatim>\<open>try\<close>: a detail that is
  not a dictionary, or an interaction entry that is not one, raises.
\<close>

definition DB_pick_fields :: "world \<Rightarrow> pyval \<Rightarrow> exn + (field \<Rightarrow> pyval)" where
  "DB_pick_fields w detail =
     ebind (or_e (get_nested detail [ascii ''indication''] PNone)
                 (get_nested detail [ascii ''indications''] PNone))
       (\<lambda>indications'.
     ebind (get_nested detail [ascii ''contraindications''] PNone)
       (\<lambda>contraindications'.
     ebind (get_nested detail [ascii ''drug_interactions''] PNone)
       (\<lambda>intr_list.
     ebind (case intr_list of
              PList xs \<Rightarrow>
                if xs \<noteq> [] then
                  ebind (snippets_loop w (take 30 xs) [])
                    (\<lambda>snippets. Inr (if snippets \<noteq> [] then PStr (join [0xFF1B] snippets) else PNone))
                else Inr PNone
            | _ \<Rightarrow> Inr PNone)
       (\<lambda>interactions'.
     ebind (or_e (get_nested detail [ascii ''pregnancy_category''] PNone)
                 (get_nested detail [ascii ''fda_pregnancy_category''] PNone))
       (\<lambda>preg.
          Inr (\<lambda>k. case k of
                     Indications \<Rightarrow> indications'
                   | Contraindications \<Rightarrow> contraindications'
                   | Interactions \<Rightarrow> interactions'
                   | Pregnancy \<Rightarrow> preg))))))"


section \<open>The main flow\<close>

text \<open>
  \<^verbatim>\<open>build_records\<close> talks to its sources through five operations: the two of the NMPA
  client, \<^verbatim>\<open>available\<close>, \<^verbatim>\<open>query_by_name\<close> and \<^verbatim>\<open>pick_fields\<close> of the DrugBank client,
  and \<^verbatim>\<open>scan_offline_label\<close>. The flow is defined over any behaviour of these
  (\<open>build_records_with\<close>), and \<open>build_records\<close> is the flow over the clients of the
  source. The search of the NMPA client is a placeholder that the source asks to be
  adapted to the site, so the online branch is dead with it and live with any other.
\<close>

record clients =
  search_label_urls :: "ustring \<Rightarrow> ustring list"
  fetch_label_text :: "ustring \<Rightarrow> ustring option"
  available :: bool
  query_by_name :: "ustring \<Rightarrow> pyval"
  pick_fields :: "pyval \<Rightarrow> exn + (field \<Rightarrow> pyval)"
  scan_offline_label :: "ustring \<Rightarrow> ustring option \<Rightarrow> exn + ustring option"

text \<open>The calls made to the sources, in order: what a test with mocked clients counts.\<close>

datatype call = Search ustring | Fetch ustring | Query ustring | Pick pyval | Scan ustring

text \<open>
  The loop over the candidate URLs: \<^verbatim>\<open>text\<close> is the last page fetched, and the loop
  stops at the first page with text.
\<close>

fun fetch_loop ::
  "clients \<Rightarrow> ustring list \<Rightarrow> ustring option \<Rightarrow> call list \<Rightarrow> ustring option \<times> call list" where
  "fetch_loop c [] text log = (text, log)"
| "fetch_loop c (u # us) text log =
     (let text' = fetch_label_text c u;
          log' = log @ [Fetch u]
      in if truthy_opt text' then (text', log') else fetch_loop c us text' log')"

definition label_text :: "ustring option \<Rightarrow> ustring" where
  "label_text t = (case t of Some s \<Rightarrow> s | None \<Rightarrow> [])"

text \<open>First: NMPA online. Every field is assigned from the parsed page.\<close>

definition online_step ::
  "clients \<Rightarrow> bool \<Rightarrow> ustring \<Rightarrow> DrugRecord \<times> call list \<Rightarrow> DrugRecord \<times> call list" where
  "online_step c use_nmpa_online nm st =
     (case st of (rec, log) \<Rightarrow>
        if use_nmpa_online then
          (let urls = search_label_urls c nm in
           case fetch_loop c urls None (log @ [Search nm]) of (text, log') \<Rightarrow>
             if truthy_opt text then
               (let parsed = parse_cn_label_text (label_text text)
                in (rec\<lparr>indications := of_opt (parsed Indications),
                         contraindications := of_opt (parsed Contraindications),
                         interactions := of_opt (parsed Interactions),
                         pregnancy_category := of_opt (parsed Pregnancy),
                         source := Some SRC_ONLINE\<rparr>, log'))
             else (rec, log'))
        else (rec, log))"

text \<open>
  Next: DrugBank, when it is in use and not all four fields are filled. A field that
  is filled is kept (\<^verbatim>\<open>rec.f or picked[f]\<close>); the label is added whenever a detail
  came back.
\<close>

definition keep_or :: "pyval \<Rightarrow> pyval \<Rightarrow> pyval" where
  "keep_or a b = (if truthy a then a else b)"

definition drugbank_step ::
  "clients \<Rightarrow> bool \<Rightarrow> ustring \<Rightarrow> DrugRecord \<times> call list \<Rightarrow> exn + DrugRecord \<times> call list" where
  "drugbank_step c use_drugbank nm st =
     (case st of (rec, log) \<Rightarrow>
        if use_drugbank \<and> \<not> list_all truthy (content_fields rec) then
          (let detail = query_by_name c nm;
               log' = log @ [Query nm]
           in if truthy detail then
                ebind (pick_fields c detail)
                  (\<lambda>picked.
                     Inr (rec\<lparr>indications := keep_or (indications rec) (picked Indications),
                              contraindications := keep_or (contraindications rec) (picked Contraindications),
                              interactions := keep_or (interactions rec) (picked Interactions),
                              pregnancy_category := keep_or (pregnancy_category rec) (picked Pregnancy),
                              source := Some (if truthy_opt (source rec)
                                              then label_text (source rec) @ ascii '' + '' @ SRC_DRUGBANK
                                              else SRC_DRUGBANK)\<rparr>,
                          log' @ [Pick detail]))
              else Inr (rec, log'))
        else Inr (rec, log))"

text \<open>
  Last resort: the offline folder, when none of the four fields is filled. Every field
  is assigned from the parsed file, and the provenance is replaced.
\<close>

definition offline_step ::
  "clients \<Rightarrow> ustring option \<Rightarrow> ustring \<Rightarrow> DrugRecord \<times> call list \<Rightarrow> exn + DrugRecord \<times> call list" where
  "offline_step c nmpa_offline_dir nm st =
     (case st of (rec, log) \<Rightarrow>
        if \<not> list_ex truthy (content_fields rec) then
          ebind (scan_offline_label c nm nmpa_offline_dir)
            (\<lambda>text.
               if truthy_opt text then
                 (let parsed = parse_cn_label_text (label_text text)
                  in Inr (rec\<lparr>indications := of_opt (parsed Indications),
                               contraindications := of_opt (parsed Contraindications),
                               interactions := of_opt (parsed Interactions),
                               pregnancy_category := of_opt (parsed Pregnancy),
                               source := Some SRC_OFFLINE\<rparr>, log @ [Scan nm]))
               else Inr (rec, log @ [Scan nm]))
        else Inr (rec, log))"

text \<open>A field that is still missing gets the sentinel; a missing provenance the marker.\<close>

definition fill_defaults :: "DrugRecord \<Rightarrow> DrugRecord" where
  "fill_defaults rec =
     (let rec = (if \<not> truthy (indications rec) then rec\<lparr>indications := PStr UNANNOTATED\<rparr> else rec);
          rec = (if \<not> truthy (contraindications rec) then rec\<lparr>contraindications := PStr UNANNOTATED\<rparr> else rec);
          rec = (if \<not> truthy (interactions rec) then rec\<lparr>interactions := PStr UNANNOTATED\<rparr> else rec);
          rec = (if \<not> truthy (pregnancy_category rec) then rec\<lparr>pregnancy_category := PStr UNANNOTATED\<rparr> else rec);
          rec = (if \<not> truthy_opt (source rec) then rec\<lparr>source := Some SRC_NONE\<rparr> else rec)
      in rec)"

text \<open>The body of the loop over the names, for one name.\<close>

definition resolve ::
  "clients \<Rightarrow> bool \<Rightarrow> ustring option \<Rightarrow> bool \<Rightarrow> ustring \<Rightarrow> call list
     \<Rightarrow> exn + DrugRecord \<times> call list" where
  "resolve c use_nmpa_online nmpa_offline_dir use_drugbank nm log =
     ebind (drugbank_step c use_drugbank nm
              (online_step c use_nmpa_online nm (new_record nm, log)))
       (\<lambda>st2. ebind (offline_step c nmpa_offline_dir nm st2)
          (\<lambda>st3. Inr (fill_defaults (fst st3), snd st3)))"

fun build_loop ::
  "clients \<Rightarrow> bool \<Rightarrow> ustring option \<Rightarrow> bool \<Rightarrow> ustring list \<Rightarrow> DrugRecord list \<Rightarrow> call list
     \<Rightarrow> exn + DrugRecord list \<times> call list" where
  "build_loop c use_nmpa_online nmpa_offline_dir use_drugbank [] records log = Inr (records, log)"
| "build_loop c use_nmpa_online nmpa_offline_dir use_drugbank (nm # names) records log =
     ebind (resolve c use_nmpa_online nmpa_offline_dir use_drugbank nm log)
       (\<lambda>st. build_loop c use_nmpa_online nmpa_offline_dir use_drugbank names
                (records @ [fst st]) (snd st))"

text \<open>
  \<^verbatim>\<open>build_records(names, use_nmpa_online, nmpa_offline_dir, use_drugbank)\<close>: DrugBank is
  switched off for the run when it is not available. The value is the list of records
  with the calls made, or the exception that leaves the function.
\<close>

definition build_records_with ::
  "clients \<Rightarrow> ustring list \<Rightarrow> bool \<Rightarrow> ustring option \<Rightarrow> bool \<Rightarrow> exn + DrugRecord list \<times> call list" where
  "build_records_with c names use_nmpa_online nmpa_offline_dir use_drugbank =
     (let use_drugbank = (if use_drugbank \<and> \<not> available c then False else use_drugbank)
      in build_loop c use_nmpa_online nmpa_offline_dir use_drugbank names [] [])"

definition shipped :: "world \<Rightarrow> clients" where
  "shipped w =
     \<lparr>search_label_urls = NMPA_search_label_urls w,
      fetch_label_text = NMPA_fetch_label_text w,
      available = DB_available w,
      query_by_name = DB_query_by_name w,
      pick_fields = DB_pick_fields w,
      scan_offline_label = offline_scan w\<rparr>"

definition build_records ::
  "world \<Rightarrow> ustring list \<Rightarrow> bool \<Rightarrow> ustring option \<Rightarrow> bool \<Rightarrow> exn + DrugRecord list \<times> call list" where
  "build_records w = build_records_with (shipped w)"


section \<open>Notions used in the statements\<close>

text \<open>The text the loop over the candidate URLs ends with.\<close>

definition online_text :: "clients \<Rightarrow> ustring \<Rightarrow> ustring option" where
  "online_text c nm = fst (fetch_loop c (search_label_urls c nm) None [])"

text \<open>The five assignments of the online and of the offline branch.\<close>

definition assign_parsed :: "(field \<Rightarrow> ustring option) \<Rightarrow> ustring \<Rightarrow> DrugRecord \<Rightarrow> DrugRecord" where
  "assign_parsed parsed label rec =
     rec\<lparr>indications := of_opt (parsed Indications),
         contraindications := of_opt (parsed Contraindications),
         interactions := of_opt (parsed Interactions),
         pregnancy_category := of_opt (parsed Pregnancy),
         source := Some label\<rparr>"

text \<open>\<^verbatim>\<open>all([...])\<close> and \<^verbatim>\<open>not any([...])\<close> over the four content fields.\<close>

definition all_filled :: "DrugRecord \<Rightarrow> bool" where
  "all_filled r = list_all truthy (content_fields r)"

definition none_filled :: "DrugRecord \<Rightarrow> bool" where
  "none_filled r = (\<not> list_ex truthy (content_fields r))"










text \<open>
  The three-way classification in the words of the specification: the section contains
  a prohibition keyword; else it contains a caution keyword, or "risk" and later
  "benefit"; else, or without a section, the sentinel.
\<close>

definition has_prohibition :: "ustring \<Rightarrow> bool" where
  "has_prohibition sec \<longleftrightarrow> (\<exists>kw\<in>set kw_prohibit. sublist kw sec)"

definition has_caution :: "ustring \<Rightarrow> bool" where
  "has_caution sec \<longleftrightarrow>
     (\<exists>kw\<in>set kw_caution. sublist kw sec) \<or>
     (\<exists>x y z. sec = x @ kw_risk @ y @ kw_benefit @ z)"

definition spec_pregnancy_label :: "ustring option \<Rightarrow> ustring" where
  "spec_pregnancy_label sec =
     (case sec of
        None \<Rightarrow> UNANNOTATED
      | Some t \<Rightarrow>
          if has_prohibition t then LABEL_PROHIBITED
          else if has_caution t then LABEL_CAUTION
          else UNANNOTATED)"

text \<open>
  A pregnancy section with a prohibition keyword and a caution keyword: "pregnant women:
  prohibited, lactation: with caution".
\<close>

definition doc3 :: ustring where
  "doc3 =
     [0x3010, 0x5B55, 0x5987, 0x53CA, 0x54FA, 0x4E73, 0x671F, 0x7528, 0x836F, 0x3011,
      0x5B55, 0x5987, 0x7981, 0x7528, 0xFF0C, 0x54FA, 0x4E73, 0x671F, 0x614E, 0x7528]"

definition sec3 :: ustring where
  "sec3 = [0x5B55, 0x5987, 0x7981, 0x7528, 0xFF0C, 0x54FA, 0x4E73, 0x671F, 0x614E, 0x7528]"

section \<open>Concrete worlds\<close>

text \<open>
  A world in which every request fails, no API key is configured, no encoding is
  detected and no local file matches. The worlds of the examples change it where
  they say.
\<close>

definition world0 :: world where
  "world0 =
     \<lparr>nmpa_http = (\<lambda>url n. Inl RequestException),
      db_http = (\<lambda>url params n. Inl RequestException),
      db_api_key = None,
      db_base = ascii ''https://api.drugbank.com/v1'',
      chardet_detect = (\<lambda>b. None),
      codec_decode = (\<lambda>enc b. Inl OtherError),
      soup_text = (\<lambda>html. Inr html),
      str_of = (\<lambda>v. []),
      offline_scan = (\<lambda>nm folder. Inr None)\<rparr>"

definition ok_response :: "nat list \<Rightarrow> exn + pyval \<Rightarrow> response" where
  "ok_response body j = \<lparr>status_code = 200, content = body, json = j\<rparr>"

text \<open>The NMPA site answers 503 to a first attempt and 200 from the second on.\<close>

definition world_503 :: world where
  "world_503 =
     world0\<lparr>nmpa_http := (\<lambda>url n.
        if n = 1 then Inr \<lparr>status_code = 503, content = [], json = Inl ValueError\<rparr>
        else Inr (ok_response [0x6F, 0x6B] (Inl ValueError)))\<rparr>"

text \<open>The NMPA site answers 204 (No Content) to a first attempt and 200 to the next.\<close>

definition world_204 :: world where
  "world_204 =
     world0\<lparr>nmpa_http := (\<lambda>url n.
        if n = 1 then Inr \<lparr>status_code = 204, content = [], json = Inl ValueError\<rparr>
        else Inr (ok_response [0x6F, 0x6B] (Inl ValueError)))\<rparr>"

text \<open>
  DrugBank is configured and answers every request with the object
  \<^verbatim>\<open>{"name": "aspirin", "drug_interactions": ["warfarin"]}\<close>: the interaction entries are
  strings, not objects.
\<close>

definition detail_str_interactions :: pyval where
  "detail_str_interactions =
     PDict [(ascii ''name'', PStr (ascii ''aspirin'')),
            (ascii ''drug_interactions'', PList [PStr (ascii ''warfarin'')])]"

definition world_str_interactions :: world where
  "world_str_interactions =
     world0\<lparr>db_api_key := Some (ascii ''key''),
            db_http := (\<lambda>url params n. Inr (ok_response [] (Inr detail_str_interactions)))\<rparr>"


section \<open>Concrete texts and clients\<close>

text \<open>
  A label text: the indications "A B C", the contraindications "D", and a section on
  pregnant and lactating women that says "not yet clear" (U+5C1A U+4E0D U+660E U+786E): no
  keyword of the heuristic. There is no section on interactions.
\<close>

definition doc1 :: ustring where
  "doc1 = [0x3010, 0x9002, 0x5E94, 0x75C7, 0x3011, 0x41, 0x20, 0x42, 0x20, 0x43, 0x3010, 0x7981, 0x5FCC, 0x3011, 0x44, 0x3010, 0x5B55, 0x5987, 0x53CA, 0x54FA, 0x4E73, 0x671F, 0x7528, 0x836F, 0x3011, 0x5C1A, 0x4E0D, 0x660E, 0x786E]"

text \<open>
  A candidate URL, a drug name, and DrugBank details used by the examples.
\<close>

definition url1 :: ustring where
  "url1 = ascii ''https://www.nmpa.gov.cn/label/1''"

definition drug1 :: ustring where
  "drug1 = ascii ''amlodipine''"

definition detail_full :: pyval where
  "detail_full =
     PDict [(ascii ''indication'', PStr (ascii ''Z'')),
            (ascii ''pregnancy_category'', PStr (ascii ''C''))]"

text \<open>
  Mocked clients: the search finds one page, whose text is \<open>doc1\<close>; DrugBank knows an
  indication and a pregnancy category; there is no local file.
\<close>

definition mock_clients :: clients where
  "mock_clients =
     \<lparr>search_label_urls = (\<lambda>nm. [url1]),
      fetch_label_text = (\<lambda>u. Some doc1),
      available = True,
      query_by_name = (\<lambda>nm. detail_full),
      pick_fields = DB_pick_fields world0,
      scan_offline_label = (\<lambda>nm folder. Inr None)\<rparr>"

text \<open>
  The record of \<open>drug1\<close> after the online step of \<open>mock_clients\<close>, and at the end.
\<close>

definition rec_online :: DrugRecord where
  "rec_online =
     \<lparr>name = drug1,
      indications = PStr [0x41, 0x20, 0x42, 0x20, 0x43],
      contraindications = PStr [0x44],
      interactions = PNone,
      pregnancy_category = PStr UNANNOTATED,
      source = Some SRC_ONLINE\<rparr>"

definition rec_final :: DrugRecord where
  "rec_final =
     \<lparr>name = drug1,
      indications = PStr [0x41, 0x20, 0x42, 0x20, 0x43],
      contraindications = PStr [0x44],
      interactions = PStr UNANNOTATED,
      pregnancy_category = PStr UNANNOTATED,
      source = Some (SRC_ONLINE @ ascii '' + '' @ SRC_DRUGBANK)\<rparr>"











text \<open>
  The text \<open>doc1\<close> as UTF-8 bytes, served by the NMPA site; DrugBank is configured and
  knows the pregnancy category "C". The clients are those of the source, with the
  placeholder search replaced by one that finds the page.
\<close>

definition doc1_utf8 :: "nat list" where
  "doc1_utf8 =
     [0xE3, 0x80, 0x90, 0xE9, 0x80, 0x82, 0xE5, 0xBA, 0x94, 0xE7, 0x97, 0x87, 0xE3, 0x80, 0x91,
      0x41, 0x20, 0x42, 0x20, 0x43, 0xE3, 0x80, 0x90, 0xE7, 0xA6, 0x81, 0xE5, 0xBF, 0x8C, 0xE3,
      0x80, 0x91, 0x44, 0xE3, 0x80, 0x90, 0xE5, 0xAD, 0x95, 0xE5, 0xA6, 0x87, 0xE5, 0x8F, 0x8A,
      0xE5, 0x93, 0xBA, 0xE4, 0xB9, 0xB3, 0xE6, 0x9C, 0x9F, 0xE7, 0x94, 0xA8, 0xE8, 0x8D, 0xAF,
      0xE3, 0x80, 0x91, 0xE5, 0xB0, 0x9A, 0xE4, 0xB8, 0x8D, 0xE6, 0x98, 0x8E, 0xE7, 0xA1, 0xAE]"




text \<open>
  The UTF-8 byte order mark, and a world whose detector reports \<^verbatim>\<open>UTF-8-SIG\<close> for a
  buffer that starts with it, as \<^verbatim>\<open>chardet\<close> does; that codec drops the mark and decodes the
  rest as UTF-8.
\<close>

definition BOM_UTF8 :: "nat list" where
  "BOM_UTF8 = [0xEF, 0xBB, 0xBF]"

definition world_bom :: world where
  "world_bom =
     world0\<lparr>chardet_detect := (\<lambda>b. if take 3 b = BOM_UTF8 then Some (ascii ''UTF-8-SIG'') else None),
            codec_decode := (\<lambda>enc b.
              if enc = ascii ''UTF-8-SIG''
              then Inr (utf8_decode_ignore (if take 3 b = BOM_UTF8 then drop 3 b else b))
              else Inl OtherError)\<rparr>"

text \<open>
  A Unicode scalar value: below U+110000 and not a surrogate.
\<close>

definition is_scalar :: "nat \<Rightarrow> bool" where
  "is_scalar c \<longleftrightarrow> c < 0x110000 \<and> \<not> (0xD800 \<le> c \<and> c \<le> 0xDFFF)"

section \<open>The matcher and the search\<close>




lemma search_at_None:
  "search_at ic r i s = None \<longleftrightarrow> (\<forall>k\<le>length s. rmatch ic r (drop k s) = [])"
proof (induction s arbitrary: i)
  case Nil
  show ?case by (simp split: list.splits)
next
  case (Cons x xs)
  show ?case
  proof (cases "rmatch ic r (x # xs)")
    case Nil
    have "(\<forall>k\<le>length (x # xs). rmatch ic r (drop k (x # xs)) = []) \<longleftrightarrow>
          (\<forall>k\<le>length xs. rmatch ic r (drop k xs) = [])"
    proof
      assume a: "\<forall>k\<le>length (x # xs). rmatch ic r (drop k (x # xs)) = []"
      show "\<forall>k\<le>length xs. rmatch ic r (drop k xs) = []"
      proof (intro allI impI)
        fix k assume "k \<le> length xs"
        with a [rule_format, of "Suc k"] show "rmatch ic r (drop k xs) = []" by simp
      qed
    next
      assume a: "\<forall>k\<le>length xs. rmatch ic r (drop k xs) = []"
      show "\<forall>k\<le>length (x # xs). rmatch ic r (drop k (x # xs)) = []"
      proof (intro allI impI)
        fix k assume k: "k \<le> length (x # xs)"
        show "rmatch ic r (drop k (x # xs)) = []"
        proof (cases k)
          case 0
          with Nil show ?thesis by simp
        next
          case (Suc j)
          with k a [rule_format, of j] show ?thesis by simp
        qed
      qed
    qed
    with Nil Cons.IH [of "Suc i"] show ?thesis by simp
  next
    case (Cons t ts)
    then have "rmatch ic r (drop 0 (x # xs)) \<noteq> []" by simp
    then have "\<not> (\<forall>k\<le>length (x # xs). rmatch ic r (drop k (x # xs)) = [])" by blast
    with Cons show ?thesis by simp
  qed
qed


declare rmatch.simps [simp del]

lemma rmatch_Lit_exact:
  "rmatch False (Lit c) s = (case s of [] \<Rightarrow> [] | x # xs \<Rightarrow> if c = x then [xs] else [])"
  by (cases s) (simp_all add: rmatch.simps(2) ci_eq_def)

lemma rmatch_lits_exact:
  "rmatch False (lits kw) s = (if prefix kw s then [drop (length kw) s] else [])"
proof (induction kw arbitrary: s)
  case Nil
  show ?case by (simp add: lits_def rmatch.simps(1))
next
  case (Cons c kw)
  have "rmatch False (lits (c # kw)) s =
      concat (map (rmatch False (lits kw)) (rmatch False (Lit c) s))"
    by (simp add: lits_def rmatch.simps(5))
  also have "\<dots> = (if prefix (c # kw) s then [drop (length (c # kw)) s] else [])"
    by (cases s) (simp_all add: rmatch_Lit_exact Cons.IH)
  finally show ?case .
qed

lemma rmatch_alts: "rmatch ic (alts rs) s = concat (map (\<lambda>r. rmatch ic r s) rs)"
proof (induction rs rule: alts.induct)
  case 1
  show ?case by (cases s) (simp_all add: rmatch.simps(3) in_class_def)
next
  case (2 r)
  show ?case by simp
next
  case (3 r v va)
  then show ?case by (simp add: rmatch.simps(6))
qed

lemma rmatch_Star_Dot_Nil: "rmatch ic (Star Dot) [] = [[]]"
  by (subst rmatch.simps(7)) (simp add: rmatch.simps(4))

lemma rmatch_Star_Dot_Cons:
  "rmatch ic (Star Dot) (x # xs) = (if x \<noteq> 0x0A then rmatch ic (Star Dot) xs else []) @ [x # xs]"
  by (subst rmatch.simps(7)) (simp add: rmatch.simps(4))

lemma rmatch_Star_Dot_set:
  "set (rmatch ic (Star Dot) s) = {drop k s |k. k \<le> length (takeWhile (\<lambda>c. c \<noteq> 0x0A) s)}"
proof (induction s)
  case Nil
  show ?case by (simp add: rmatch_Star_Dot_Nil)
next
  case (Cons x xs)
  show ?case
  proof (cases "x = 0x0A")
    case True
    then show ?thesis by (simp add: rmatch_Star_Dot_Cons)
  next
    case False
    have "{drop k (x # xs) |k. k \<le> Suc (length (takeWhile (\<lambda>c. c \<noteq> 0x0A) xs))} =
          insert (x # xs) {drop k xs |k. k \<le> length (takeWhile (\<lambda>c. c \<noteq> 0x0A) xs)}"
      (is "?A = ?B")
    proof (intro set_eqI iffI)
      fix t assume "t \<in> ?A"
      then obtain k where k: "t = drop k (x # xs)" "k \<le> Suc (length (takeWhile (\<lambda>c. c \<noteq> 0x0A) xs))"
        by blast
      show "t \<in> ?B"
      proof (cases k)
        case 0
        with k show ?thesis by simp
      next
        case (Suc j)
        with k have "t = drop j xs" "j \<le> length (takeWhile (\<lambda>c. c \<noteq> 0x0A) xs)" by simp_all
        then show ?thesis by blast
      qed
    next
      fix t assume "t \<in> ?B"
      then consider "t = x # xs"
        | k where "t = drop k xs" "k \<le> length (takeWhile (\<lambda>c. c \<noteq> 0x0A) xs)" by blast
      then show "t \<in> ?A"
      proof cases
        case 1
        then have "t = drop 0 (x # xs) \<and> 0 \<le> Suc (length (takeWhile (\<lambda>c. c \<noteq> 0x0A) xs))" by simp
        then show ?thesis by blast
      next
        case 2
        then have "t = drop (Suc k) (x # xs) \<and> Suc k \<le> Suc (length (takeWhile (\<lambda>c. c \<noteq> 0x0A) xs))"
          by simp
        then show ?thesis by blast
      qed
    qed
    with False Cons.IH show ?thesis by (simp add: rmatch_Star_Dot_Cons)
  qed
qed

lemma search_at_found:
  "search_at ic r i s \<noteq> None \<longleftrightarrow> (\<exists>k\<le>length s. rmatch ic r (drop k s) \<noteq> [])"
proof -
  have "search_at ic r i s \<noteq> None \<longleftrightarrow> \<not> (\<forall>k\<le>length s. rmatch ic r (drop k s) = [])"
    by (simp only: search_at_None)
  then show ?thesis by simp
qed

lemma sublist_iff_prefix_drop: "sublist kw s \<longleftrightarrow> (\<exists>k\<le>length s. prefix kw (drop k s))"
proof
  assume "sublist kw s"
  then obtain ps ss where s: "s = ps @ kw @ ss" by (auto simp: sublist_def)
  then have "length ps \<le> length s \<and> prefix kw (drop (length ps) s)" by simp
  then show "\<exists>k\<le>length s. prefix kw (drop k s)" by blast
next
  assume "\<exists>k\<le>length s. prefix kw (drop k s)"
  then obtain k ss where "drop k s = kw @ ss" by (auto simp: prefix_def)
  then have "s = take k s @ kw @ ss" by (metis append_take_drop_id)
  then show "sublist kw s" unfolding sublist_def by blast
qed

lemma concat_map_empty: "concat (map f xs) = [] \<longleftrightarrow> (\<forall>x\<in>set xs. f x = [])"
  by (induction xs) auto

lemma rmatch_Seq_nonempty:
  "rmatch ic (Seq a b) s \<noteq> [] \<longleftrightarrow> (\<exists>u\<in>set (rmatch ic a s). rmatch ic b u \<noteq> [])"
  by (simp add: rmatch.simps(5) concat_map_empty)

lemma rmatch_keywords:
  "concat (map (\<lambda>r. rmatch False r t) (map lits kws)) \<noteq> [] \<longleftrightarrow> (\<exists>kw\<in>set kws. prefix kw t)"
  by (induction kws) (auto simp: rmatch_lits_exact)

lemma search_keywords:
  "re_search False (alts (map lits kws)) s \<noteq> None \<longleftrightarrow> (\<exists>kw\<in>set kws. sublist kw s)"
proof -
  have m: "rmatch False (alts (map lits kws)) t \<noteq> [] \<longleftrightarrow> (\<exists>kw\<in>set kws. prefix kw t)" for t
    by (simp only: rmatch_alts rmatch_keywords)
  have "re_search False (alts (map lits kws)) s \<noteq> None \<longleftrightarrow>
        (\<exists>k\<le>length s. \<exists>kw\<in>set kws. prefix kw (drop k s))"
    unfolding re_search_def search_at_found m ..
  also have "\<dots> \<longleftrightarrow> (\<exists>kw\<in>set kws. \<exists>k\<le>length s. prefix kw (drop k s))" by blast
  also have "\<dots> \<longleftrightarrow> (\<exists>kw\<in>set kws. sublist kw s)" by (simp only: sublist_iff_prefix_drop)
  finally show ?thesis .
qed

lemma rmatch_gap:
  assumes nl: "0x0A \<notin> set t"
  shows "rmatch False (seqs [lits a, Star Dot, lits b]) t \<noteq> [] \<longleftrightarrow>
         prefix a t \<and> sublist b (drop (length a) t)"
proof -
  have tw: "takeWhile (\<lambda>c. c \<noteq> 0x0A) (drop (length a) t) = drop (length a) t"
    using nl by (auto simp: takeWhile_eq_all_conv dest: in_set_dropD)
  have star: "set (rmatch False (Star Dot) u) = {drop k u |k. k \<le> length u}"
    if "u = drop (length a) t" for u
    using rmatch_Star_Dot_set [of False u] tw that by simp
  have "rmatch False (seqs [lits a, Star Dot, lits b]) t \<noteq> [] \<longleftrightarrow>
        (\<exists>u\<in>set (rmatch False (lits a) t).
           \<exists>v\<in>set (rmatch False (Star Dot) u).
             \<exists>w\<in>set (rmatch False (lits b) v). rmatch False Eps w \<noteq> [])"
    by (simp only: seqs.simps rmatch_Seq_nonempty)
  also have "\<dots> \<longleftrightarrow>
        prefix a t \<and> (\<exists>v\<in>set (rmatch False (Star Dot) (drop (length a) t)). prefix b v)"
    by (simp add: rmatch_lits_exact rmatch.simps(1))
  also have "\<dots> \<longleftrightarrow> prefix a t \<and> (\<exists>k\<le>length (drop (length a) t). prefix b (drop k (drop (length a) t)))"
    unfolding star [OF refl] by blast
  also have "\<dots> \<longleftrightarrow> prefix a t \<and> sublist b (drop (length a) t)"
    by (simp only: sublist_iff_prefix_drop)
  finally show ?thesis .
qed

lemma then_later:
  "(\<exists>k\<le>length s. prefix a (drop k s) \<and> sublist b (drop (length a) (drop k s))) \<longleftrightarrow>
   (\<exists>x y z. s = x @ a @ y @ b @ z)"
proof
  assume "\<exists>k\<le>length s. prefix a (drop k s) \<and> sublist b (drop (length a) (drop k s))"
  then obtain k where pk: "prefix a (drop k s)" and sb: "sublist b (drop (length a) (drop k s))"
    by blast
  from pk obtain r where d: "drop k s = a @ r" by (auto simp: prefix_def)
  from d have "drop (length a) (drop k s) = r" by simp
  with sb obtain y z where r: "r = y @ b @ z" by (auto simp: sublist_def)
  have "s = take k s @ drop k s" by simp
  with d r have "s = take k s @ a @ y @ b @ z" by simp
  then show "\<exists>x y z. s = x @ a @ y @ b @ z" by blast
next
  assume "\<exists>x y z. s = x @ a @ y @ b @ z"
  then obtain x y z where s: "s = x @ a @ y @ b @ z" by blast
  have "length x \<le> length s" by (simp add: s)
  moreover have "prefix a (drop (length x) s)" by (simp add: s)
  moreover have "sublist b (drop (length a) (drop (length x) s))"
    by (simp add: s sublist_def) blast
  ultimately show "\<exists>k\<le>length s. prefix a (drop k s) \<and> sublist b (drop (length a) (drop k s))"
    by blast
qed

lemma search_prohibit: "re_search False pat_prohibit s \<noteq> None \<longleftrightarrow> has_prohibition s"
  unfolding pat_prohibit_def has_prohibition_def by (rule search_keywords)

lemma search_caution:
  assumes nl: "0x0A \<notin> set s"
  shows "re_search False pat_caution s \<noteq> None \<longleftrightarrow> has_caution s"
proof -
  have nld: "0x0A \<notin> set (drop k s)" for k using nl by (auto dest: in_set_dropD)
  have m: "rmatch False pat_caution t \<noteq> [] \<longleftrightarrow>
        (\<exists>kw\<in>set kw_caution. prefix kw t) \<or>
        rmatch False (seqs [lits kw_risk, Star Dot, lits kw_benefit]) t \<noteq> []" for t
  proof -
    have "rmatch False pat_caution t =
        concat (map (\<lambda>r. rmatch False r t) (map lits kw_caution)) @
        rmatch False (seqs [lits kw_risk, Star Dot, lits kw_benefit]) t"
      unfolding pat_caution_def rmatch_alts by simp
    then show ?thesis by (simp only: append_is_Nil_conv de_Morgan_conj rmatch_keywords)
  qed
  have "re_search False pat_caution s \<noteq> None \<longleftrightarrow>
        (\<exists>k\<le>length s. (\<exists>kw\<in>set kw_caution. prefix kw (drop k s)) \<or>
           rmatch False (seqs [lits kw_risk, Star Dot, lits kw_benefit]) (drop k s) \<noteq> [])"
    unfolding re_search_def search_at_found m ..
  also have "\<dots> \<longleftrightarrow>
        (\<exists>k\<le>length s. (\<exists>kw\<in>set kw_caution. prefix kw (drop k s)) \<or>
           (prefix kw_risk (drop k s) \<and> sublist kw_benefit (drop (length kw_risk) (drop k s))))"
    by (simp only: rmatch_gap [OF nld])
  also have "\<dots> \<longleftrightarrow>
        (\<exists>kw\<in>set kw_caution. \<exists>k\<le>length s. prefix kw (drop k s)) \<or>
        (\<exists>k\<le>length s. prefix kw_risk (drop k s) \<and>
            sublist kw_benefit (drop (length kw_risk) (drop k s)))"
    by blast
  also have "\<dots> \<longleftrightarrow> has_caution s"
    unfolding has_caution_def by (simp only: sublist_iff_prefix_drop [symmetric] then_later)
  finally show ?thesis .
qed

lemmas regex_eval = re_search_def lits_def colons_def LB_def RB_def ws_def ci_eq_def lower_def
  in_class_def is_space_def strip_def NEXT_SECTION_RE_def rmatch.simps

section \<open>The pregnancy heuristic\<close>

lemma collapse_ws_chars: "c \<in> set (collapse_ws s) \<Longrightarrow> \<not> is_space c \<or> c = 0x20"
proof (induction s rule: collapse_ws.induct)
  case 1
  then show ?case by simp
next
  case (2 x xs)
  then show ?case by (auto split: if_splits)
qed

lemma set_strip: "set (strip s) \<subseteq> set s"
proof -
  have "set (dropWhile is_space (rev (dropWhile is_space s))) \<subseteq> set (dropWhile is_space s)"
    using set_dropWhileD [of _ is_space "rev (dropWhile is_space s)"] by auto
  moreover have "set (dropWhile is_space s) \<subseteq> set s"
    using set_dropWhileD [of _ is_space s] by auto
  ultimately show ?thesis by (simp add: strip_def)
qed

lemma slice_section_chars:
  assumes "slice_section text pat = Some s" and "c \<in> set s"
  shows "\<not> is_space c \<or> c = 0x20"
proof -
  from assms(1) obtain body where "s = strip (collapse_ws body)"
    by (auto simp: slice_section_def Let_def split: option.splits if_splits)
  with assms(2) set_strip have "c \<in> set (collapse_ws body)" by blast
  then show ?thesis by (rule collapse_ws_chars)
qed

lemma slice_section_no_newline:
  assumes "slice_section text pat = Some s"
  shows "0x0A \<notin> set s"
proof
  assume "0x0A \<in> set s"
  from slice_section_chars [OF assms this] show False by (simp add: is_space_def)
qed

lemma slice_section_nonempty: "slice_section text pat = Some s \<Longrightarrow> s \<noteq> []"
  by (auto simp: slice_section_def Let_def split: option.splits if_splits)

lemma parse_loop_keeps_pregnancy:
  "fold (parse_loop_step text) ps out Pregnancy = out Pregnancy"
  by (induction ps arbitrary: out) (auto simp: parse_loop_step_def split: option.splits)

text \<open>
  C9. The pregnancy entry of the parser is the three-way classification of the pregnancy
  section of the collapsed text: the prohibition label when the section contains a
  prohibition keyword, whether or not a caution keyword is there too; else the caution
  label when it contains a caution keyword, or "risk" followed later by "benefit"; else,
  and also when there is no pregnancy section, the sentinel.
\<close>
theorem pregnancy_classification:
  "parse_cn_label_text full_text Pregnancy =
     Some (spec_pregnancy_label (slice_section (collapse_ws full_text) pat_pregnancy))"
proof (cases "slice_section (collapse_ws full_text) pat_pregnancy")
  case None
  then show ?thesis
    by (simp add: parse_cn_label_text_def Let_def SECTION_PATTERNS_def spec_pregnancy_label_def)
next
  case (Some p)
  have ne: "p \<noteq> []" by (rule slice_section_nonempty [OF Some])
  have nl: "0x0A \<notin> set p" by (rule slice_section_no_newline [OF Some])
  show ?thesis
    using Some ne search_prohibit [of p] search_caution [OF nl]
    by (simp add: parse_cn_label_text_def Let_def SECTION_PATTERNS_def spec_pregnancy_label_def)
qed

lemma slice_doc3: "slice_section (collapse_ws doc3) pat_pregnancy = Some sec3"
proof -
  have c: "collapse_ws doc3 = doc3" by (simp add: doc3_def is_space_def)
  show ?thesis
    unfolding c by (simp add: doc3_def sec3_def slice_section_def pat_pregnancy_def regex_eval)
qed

lemma sec3_keywords: "has_prohibition sec3" "has_caution sec3"
  by (simp_all add: has_prohibition_def has_caution_def kw_prohibit_def kw_caution_def sec3_def
      sublist_code)

text \<open>Both keywords in the section: the prohibition label wins.\<close>
theorem pregnancy_classification_witness:
  "slice_section (collapse_ws doc3) pat_pregnancy = Some sec3 \<and>
   has_prohibition sec3 \<and> has_caution sec3 \<and>
   parse_cn_label_text doc3 Pregnancy = Some LABEL_PROHIBITED"
proof -
  have "parse_cn_label_text doc3 Pregnancy = Some (spec_pregnancy_label (Some sec3))"
    using pregnancy_classification [of doc3] by (simp only: slice_doc3)
  then have "parse_cn_label_text doc3 Pregnancy = Some LABEL_PROHIBITED"
    by (simp add: spec_pregnancy_label_def sec3_keywords)
  with slice_doc3 sec3_keywords show ?thesis by (intro conjI)
qed

section \<open>Section extraction\<close>

















section \<open>Retry policy of the remote GETs\<close>

lemma retry3_unfold:
  "retry3 f =
     (case f 1 of
        Inr v \<Rightarrow> (Inr v, 1, [])
      | Inl e \<Rightarrow>
          if e \<noteq> RequestException then (Inl e, 1, [])
          else (case f 2 of
                  Inr v \<Rightarrow> (Inr v, 2, [1])
                | Inl e \<Rightarrow>
                    if e \<noteq> RequestException then (Inl e, 2, [1])
                    else (f 3, 3, [1, 2])))"
proof -
  have three: "retry_loop is_request_exception 3 (wait_exponential 1 1 8) f 3 s = (f 3, 3, s)" for s
    by (subst retry_loop.simps) (simp split: sum.splits)
  have two: "retry_loop is_request_exception 3 (wait_exponential 1 1 8) f 2 s =
      (case f 2 of Inr v \<Rightarrow> (Inr v, 2, s)
       | Inl e \<Rightarrow> if e \<noteq> RequestException then (Inl e, 2, s) else (f 3, 3, s @ [2]))" for s
    by (subst retry_loop.simps)
       (simp add: three wait_exponential_def is_request_exception_def split: sum.splits)
  have "retry3 f =
      (case f 1 of Inr v \<Rightarrow> (Inr v, 1, [])
       | Inl e \<Rightarrow> if e \<noteq> RequestException then (Inl e, 1, [])
                  else retry_loop is_request_exception 3 (wait_exponential 1 1 8) f 2 ([] @ [1]))"
    unfolding retry3_def
    by (subst retry_loop.simps)
       (simp add: wait_exponential_def is_request_exception_def numeral_2_eq_2 split: sum.splits)
  then show ?thesis
    by (simp only: two append_Nil append_Cons)
qed

lemma retry3_spec:
  "case retry3 f of (res, n, slept) \<Rightarrow>
     1 \<le> n \<and> n \<le> 3 \<and> res = f n \<and>
     slept = map (\<lambda>k. min 8 (2 ^ (k - 1))) [1..<n] \<and>
     (\<forall>k\<in>{1..<n}. f k = Inl RequestException) \<and>
     (n < 3 \<longrightarrow> f n \<noteq> Inl RequestException)"
proof -
  have s2: "{Suc 0..<2} = {Suc 0}" by auto
  have s3: "{Suc 0..<3} = {Suc 0, 2}" by auto
  have u2: "[Suc 0..<2] = [Suc 0]" by (simp add: upt_rec)
  have u3: "[Suc 0..<3] = [Suc 0, 2]" by (simp add: upt_rec)
  show ?thesis
    by (simp add: retry3_unfold s2 s3 u2 u3 split: sum.splits)
qed

lemma nmpa_attempt_fails:
  "nmpa_attempt w url k = Inl RequestException \<longleftrightarrow>
     nmpa_http w url k = Inl RequestException \<or>
     (\<exists>r. nmpa_http w url k = Inr r \<and> status_code r \<noteq> 200)"
  by (auto simp: nmpa_attempt_def ebind_def split: sum.splits)

lemma db_attempt_fails:
  "db_attempt w url ps k = Inl RequestException \<longleftrightarrow>
     db_http w url ps k = Inl RequestException \<or>
     (\<exists>r. db_http w url ps k = Inr r \<and> (status_code r \<noteq> 200 \<or> json r = Inl RequestException))"
  by (auto simp: db_attempt_def ebind_def split: sum.splits)

lemma wait_exponential_1_1_8: "wait_exponential 1 1 8 k = min 8 (2 ^ (k - 1))"
proof -
  have "(1::nat) \<le> 2 ^ (k - 1)" by simp
  then show ?thesis unfolding wait_exponential_def by (simp add: min_def max_def)
qed

text \<open>
  C5, as the code has it. A GET of either client makes \<open>n\<close> attempts with
  \<open>1 \<le> n \<le> 3\<close> and returns the outcome of the last; it sleeps
  \<open>min 8 (2 ^ (k - 1))\<close> seconds after attempt \<open>k\<close> (1 s, then 2 s: doubling from 1 s,
  capped at 8 s); every attempt before the last failed with a \<^verbatim>\<open>RequestException\<close>,
  and an outcome that ends the call before the third attempt is not a
  \<^verbatim>\<open>RequestException\<close> (a result, or another exception, which propagates at once). An
  attempt fails with a \<^verbatim>\<open>RequestException\<close> exactly when \<^verbatim>\<open>sess.get\<close> raises one or the
  status is not 200 (for DrugBank also when \<^verbatim>\<open>resp.json()\<close> raises one): the test is
  on the status 200, not on the class 2xx.
\<close>

theorem get_retry_policy:
  "(case NMPA_get w url of (res, n, slept) \<Rightarrow>
      1 \<le> n \<and> n \<le> 3 \<and> res = nmpa_attempt w url n \<and>
      slept = map (\<lambda>k. min 8 (2 ^ (k - 1))) [1..<n] \<and>
      (\<forall>k\<in>{1..<n}. nmpa_attempt w url k = Inl RequestException) \<and>
      (n < 3 \<longrightarrow> nmpa_attempt w url n \<noteq> Inl RequestException)) \<and>
   (case DB_get w path params of (res, n, slept) \<Rightarrow>
      1 \<le> n \<and> n \<le> 3 \<and>
      res = db_attempt w (rstrip_slash (db_base w) @ ascii ''/'' @ lstrip_slash path) params n \<and>
      slept = map (\<lambda>k. min 8 (2 ^ (k - 1))) [1..<n] \<and>
      (\<forall>k\<in>{1..<n}.
          db_attempt w (rstrip_slash (db_base w) @ ascii ''/'' @ lstrip_slash path) params k
            = Inl RequestException) \<and>
      (n < 3 \<longrightarrow>
          db_attempt w (rstrip_slash (db_base w) @ ascii ''/'' @ lstrip_slash path) params n
            \<noteq> Inl RequestException)) \<and>
   (\<forall>k. wait_exponential 1 1 8 k = min 8 (2 ^ (k - 1))) \<and>
   (\<forall>k. nmpa_attempt w url k = Inl RequestException \<longleftrightarrow>
          nmpa_http w url k = Inl RequestException \<or>
          (\<exists>r. nmpa_http w url k = Inr r \<and> status_code r \<noteq> 200)) \<and>
   (\<forall>u k. db_attempt w u params k = Inl RequestException \<longleftrightarrow>
          db_http w u params k = Inl RequestException \<or>
          (\<exists>r. db_http w u params k = Inr r \<and>
               (status_code r \<noteq> 200 \<or> json r = Inl RequestException)))"
proof -
  have a: "case NMPA_get w url of (res, n, slept) \<Rightarrow>
      1 \<le> n \<and> n \<le> 3 \<and> res = nmpa_attempt w url n \<and>
      slept = map (\<lambda>k. min 8 (2 ^ (k - 1))) [1..<n] \<and>
      (\<forall>k\<in>{1..<n}. nmpa_attempt w url k = Inl RequestException) \<and>
      (n < 3 \<longrightarrow> nmpa_attempt w url n \<noteq> Inl RequestException)"
    unfolding NMPA_get_def by (rule retry3_spec)
  have b: "case DB_get w path params of (res, n, slept) \<Rightarrow>
      1 \<le> n \<and> n \<le> 3 \<and>
      res = db_attempt w (rstrip_slash (db_base w) @ ascii ''/'' @ lstrip_slash path) params n \<and>
      slept = map (\<lambda>k. min 8 (2 ^ (k - 1))) [1..<n] \<and>
      (\<forall>k\<in>{1..<n}.
          db_attempt w (rstrip_slash (db_base w) @ ascii ''/'' @ lstrip_slash path) params k
            = Inl RequestException) \<and>
      (n < 3 \<longrightarrow>
          db_attempt w (rstrip_slash (db_base w) @ ascii ''/'' @ lstrip_slash path) params n
            \<noteq> Inl RequestException)"
    unfolding DB_get_def Let_def by (rule retry3_spec)
  show ?thesis
    using a b wait_exponential_1_1_8 nmpa_attempt_fails db_attempt_fails by blast
qed

text \<open>
  The policy at work: the site answers 503, then 200. The first attempt fails with
  a \<^verbatim>\<open>RequestException\<close>, the call sleeps 1 s and the second attempt returns.
\<close>

theorem get_retry_policy_witness:
  "NMPA_get world_503 [] = (Inr (ok_response [0x6F, 0x6B] (Inl ValueError)), 2, [1]) \<and>
   nmpa_attempt world_503 [] 1 = Inl RequestException \<and>
   nmpa_attempt world_503 [] 2 \<noteq> Inl RequestException"
  using get_retry_policy [of world_503 "[]" "[]" None]
  by (simp add: NMPA_get_def retry3_unfold nmpa_attempt_def world_503_def world0_def
      ok_response_def ebind_def)

text \<open>
  C5 as stated fails: a response with the success status 204 is no "non-2xx status",
  yet the attempt counts as failed and is retried (two attempts, one sleep of 1 s).
\<close>

theorem get_retries_2xx_counterexample:
  "nmpa_http world_204 [] 1 = Inr \<lparr>status_code = 204, content = [], json = Inl ValueError\<rparr> \<and>
   200 \<le> (204::nat) \<and> (204::nat) < 300 \<and>
   NMPA_get world_204 [] = (Inr (ok_response [0x6F, 0x6B] (Inl ValueError)), 2, [1])"
  by (simp add: NMPA_get_def retry3_unfold nmpa_attempt_def world_204_def world0_def
      ok_response_def ebind_def)

section \<open>Failures inside the source clients\<close>

lemma query_str_interactions:
  "DB_query_by_name world_str_interactions nm = detail_str_interactions"
  by (simp add: DB_query_by_name_def query_by_name_body_def DB_get_def db_attempt_def
      world_str_interactions_def detail_str_interactions_def world0_def ok_response_def
      ebind_def or_e_def retry3_unfold ascii_def)

lemma pick_str_interactions:
  "DB_pick_fields world_str_interactions detail_str_interactions = Inl AttributeError"
  by (simp add: DB_pick_fields_def detail_str_interactions_def ebind_def or_e_def ascii_def)

lemma available_str_interactions: "DB_available world_str_interactions"
  by (simp add: DB_available_def truthy_opt_def world_str_interactions_def world0_def ascii_def)

lemma truthy_str_interactions: "truthy detail_str_interactions"
  by (simp add: detail_str_interactions_def)

text \<open>
  C6 fails on the code. \<^verbatim>\<open>query_by_name\<close> absorbs its exceptions, but \<^verbatim>\<open>pick_fields\<close>
  is called by \<^verbatim>\<open>build_records\<close> outside any \<^verbatim>\<open>try\<close>. When DrugBank answers with
  \<^verbatim>\<open>{"name": "aspirin", "drug_interactions": ["warfarin"]}\<close>, the query returns that
  object, \<^verbatim>\<open>pick_fields\<close> calls \<^verbatim>\<open>.get\<close> on the string and raises \<^verbatim>\<open>AttributeError\<close>, and
  the exception leaves \<^verbatim>\<open>build_records\<close>: no record is returned, neither for this
  name nor for the next.
\<close>

theorem pick_fields_exception_escapes:
  "DB_query_by_name world_str_interactions (ascii ''aspirin'') = detail_str_interactions \<and>
   DB_pick_fields world_str_interactions detail_str_interactions = Inl AttributeError \<and>
   build_records world_str_interactions [ascii ''aspirin'', ascii ''ibuprofen''] True None True
     = Inl AttributeError"
  by (simp add: build_records_def build_records_with_def shipped_def resolve_def
      online_step_def drugbank_step_def NMPA_search_label_urls_def
      available_str_interactions truthy_str_interactions query_str_interactions
      pick_str_interactions truthy_opt_def new_record_def content_fields_def ebind_def Let_def)

section \<open>The fallback chain, record by record\<close>

lemma fetch_loop_fst_any: "fst (fetch_loop c us t log) = fst (fetch_loop c us t log2)"
proof (induction us arbitrary: t log log2)
  case Nil
  show ?case by simp
next
  case (Cons u us)
  show ?case
    using Cons.IH [of "fetch_label_text c u" "log @ [Fetch u]" "log2 @ [Fetch u]"]
    by (simp add: Let_def)
qed

lemma fetch_loop_fst: "fst (fetch_loop c us t log) = fst (fetch_loop c us t [])"
  by (rule fetch_loop_fst_any)

lemma all_filled_iff: "all_filled r \<longleftrightarrow> (\<forall>f. truthy (get_field f r))"
proof
  assume "all_filled r"
  then show "\<forall>f. truthy (get_field f r)"
    by (auto simp: all_filled_def content_fields_def intro: field.induct)
next
  assume a: "\<forall>f. truthy (get_field f r)"
  from a[rule_format, of Indications] a[rule_format, of Contraindications]
       a[rule_format, of Interactions] a[rule_format, of Pregnancy]
  show "all_filled r" by (simp add: all_filled_def content_fields_def)
qed

lemma none_filled_iff: "none_filled r \<longleftrightarrow> (\<forall>f. \<not> truthy (get_field f r))"
proof
  assume "none_filled r"
  then have "\<not> truthy (get_field f r)" for f
    by (cases f) (simp_all add: none_filled_def content_fields_def)
  then show "\<forall>f. \<not> truthy (get_field f r)" by blast
next
  assume a: "\<forall>f. \<not> truthy (get_field f r)"
  from a[rule_format, of Indications] a[rule_format, of Contraindications]
       a[rule_format, of Interactions] a[rule_format, of Pregnancy]
  show "none_filled r" by (simp add: none_filled_def content_fields_def)
qed

lemma get_field_assign: "get_field f (assign_parsed p l r) = of_opt (p f)"
  by (cases f) (simp_all add: assign_parsed_def)

lemma online_step_fst:
  "fst (online_step c uo nm (rec, log)) =
     (if uo \<and> truthy_opt (online_text c nm)
      then assign_parsed (parse_cn_label_text (label_text (online_text c nm))) SRC_ONLINE rec
      else rec)"
proof -
  have "fst (fetch_loop c (search_label_urls c nm) None (log @ [Search nm])) = online_text c nm"
    unfolding online_text_def by (rule fetch_loop_fst)
  then show ?thesis
    by (auto simp: online_step_def Let_def assign_parsed_def split: prod.splits)
qed

lemma drugbank_step_cases:
  "drugbank_step c ud nm (rec, log) =
     (if ud \<and> \<not> all_filled rec then
        if truthy (query_by_name c nm) then
          (case pick_fields c (query_by_name c nm) of
             Inl e \<Rightarrow> Inl e
           | Inr picked \<Rightarrow>
               Inr (rec\<lparr>indications := keep_or (indications rec) (picked Indications),
                        contraindications := keep_or (contraindications rec) (picked Contraindications),
                        interactions := keep_or (interactions rec) (picked Interactions),
                        pregnancy_category := keep_or (pregnancy_category rec) (picked Pregnancy),
                        source := Some (if truthy_opt (source rec)
                                        then label_text (source rec) @ ascii '' + '' @ SRC_DRUGBANK
                                        else SRC_DRUGBANK)\<rparr>,
                    log @ [Query nm, Pick (query_by_name c nm)]))
        else Inr (rec, log @ [Query nm])
      else Inr (rec, log))"
  by (simp add: drugbank_step_def Let_def ebind_def all_filled_def split: sum.splits)

lemma drugbank_step_keeps:
  assumes "drugbank_step c ud nm (rec, log) = Inr (rec', log')" and "truthy (get_field f rec)"
  shows "get_field f rec' = get_field f rec"
  using assms
  by (cases f) (auto simp: drugbank_step_cases keep_or_def split: if_splits sum.splits)

lemma offline_step_cases:
  "offline_step c dir nm (rec, log) =
     (if none_filled rec then
        (case scan_offline_label c nm dir of
           Inl e \<Rightarrow> Inl e
         | Inr text \<Rightarrow>
             if truthy_opt text
             then Inr (assign_parsed (parse_cn_label_text (label_text text)) SRC_OFFLINE rec, log @ [Scan nm])
             else Inr (rec, log @ [Scan nm]))
      else Inr (rec, log))"
  by (simp add: offline_step_def Let_def ebind_def none_filled_def assign_parsed_def split: sum.splits)

lemma offline_step_keeps:
  assumes "offline_step c dir nm (rec, log) = Inr (rec', log')" and "truthy (get_field f rec)"
  shows "get_field f rec' = get_field f rec"
proof -
  from assms(2) have "\<not> none_filled rec" by (auto simp: none_filled_iff)
  with assms(1) show ?thesis by (simp add: offline_step_cases)
qed

lemma fill_defaults_field:
  "get_field f (fill_defaults r) = (if truthy (get_field f r) then get_field f r else PStr UNANNOTATED)"
  by (cases f) (simp_all add: fill_defaults_def Let_def)



lemma resolve_cases:
  "resolve c uo dir ud nm log = Inr (r, log') \<longleftrightarrow>
     (\<exists>r2 l2 r3.
        drugbank_step c ud nm (online_step c uo nm (new_record nm, log)) = Inr (r2, l2) \<and>
        offline_step c dir nm (r2, l2) = Inr (r3, log') \<and> r = fill_defaults r3)"
  by (auto simp: resolve_def ebind_def split: sum.splits)






lemma truthy_of_opt_parse_pregnancy: "truthy_opt (parse_cn_label_text t Pregnancy)"
  by (simp add: parse_cn_label_text_def Let_def truthy_opt_def LABEL_PROHIBITED_def
      LABEL_CAUTION_def UNANNOTATED_def split: option.splits)



lemma falsy_of_opt: "\<not> truthy_opt t \<Longrightarrow> \<not> truthy (of_opt t)"
  by (simp add: truthy_opt_def)











lemma resolve_keeps_online:
  assumes res: "resolve c uo dir ud nm log = Inr (r, log')"
      and tr: "truthy (get_field f (fst (online_step c uo nm (new_record nm, log))))"
  shows "get_field f r = get_field f (fst (online_step c uo nm (new_record nm, log)))"
proof -
  from res obtain r2 l2 r3 where
    d: "drugbank_step c ud nm (online_step c uo nm (new_record nm, log)) = Inr (r2, l2)" and
    o: "offline_step c dir nm (r2, l2) = Inr (r3, log')" and r: "r = fill_defaults r3"
    by (auto simp: resolve_cases)
  obtain r1 l1 where s1: "online_step c uo nm (new_record nm, log) = (r1, l1)"
    by (cases "online_step c uo nm (new_record nm, log)") auto
  from tr have t1: "truthy (get_field f r1)" by (simp add: s1)
  have e2: "get_field f r2 = get_field f r1"
    by (rule drugbank_step_keeps [OF d [unfolded s1] t1])
  have e3: "get_field f r3 = get_field f r2"
    by (rule offline_step_keeps [OF o]) (simp add: e2 t1)
  show ?thesis by (simp add: r fill_defaults_field e3 e2 t1 s1)
qed

section \<open>The fallback chain on concrete clients\<close>

lemma collapse_doc1: "collapse_ws doc1 = doc1"
  by (simp add: doc1_def is_space_def)

lemma s1: "slice_section doc1 pat_indications = Some [0x41, 0x20, 0x42, 0x20, 0x43]"
  by (simp add: doc1_def slice_section_def pat_indications_def regex_eval)

lemma s2: "slice_section doc1 pat_contraindications = Some [0x44]"
  by (simp add: doc1_def slice_section_def pat_contraindications_def regex_eval)

lemma s3: "slice_section doc1 pat_interactions = None"
  by (simp add: doc1_def slice_section_def pat_interactions_def regex_eval)

lemma s4: "slice_section doc1 pat_pregnancy = Some [0x5C1A, 0x4E0D, 0x660E, 0x786E]"
  by (simp add: doc1_def slice_section_def pat_pregnancy_def regex_eval)

lemma k1: "re_search False pat_prohibit [0x5C1A, 0x4E0D, 0x660E, 0x786E] = None"
  by (simp add: pat_prohibit_def kw_prohibit_def regex_eval)

lemma k2: "re_search False pat_caution [0x5C1A, 0x4E0D, 0x660E, 0x786E] = None"
  by (simp add: pat_caution_def kw_caution_def kw_risk_def kw_benefit_def regex_eval)

lemma parse_doc1:
  "parse_cn_label_text doc1 =
     (\<lambda>k. case k of Indications \<Rightarrow> Some [0x41, 0x20, 0x42, 0x20, 0x43]
               | Contraindications \<Rightarrow> Some [0x44]
               | Interactions \<Rightarrow> None
               | Pregnancy \<Rightarrow> Some UNANNOTATED)"
  by (rule ext)
     (simp add: parse_cn_label_text_def collapse_doc1 SECTION_PATTERNS_def parse_loop_step_def
       s1 s2 s3 s4 k1 k2 Let_def split: field.splits)

lemma pick_full:
  "DB_pick_fields world0 detail_full =
     Inr (\<lambda>k. case k of Indications \<Rightarrow> PStr [0x5A] | Contraindications \<Rightarrow> PNone
               | Interactions \<Rightarrow> PNone | Pregnancy \<Rightarrow> PStr [0x43])"
  by (simp add: DB_pick_fields_def detail_full_def ebind_def or_e_def ascii_def)

lemma mock_online:
  "online_step mock_clients True drug1 (new_record drug1, []) =
     (rec_online, [Search drug1, Fetch url1])"
proof -
  have d: "doc1 \<noteq> []" by (simp add: doc1_def)
  show ?thesis
    by (simp add: online_step_def mock_clients_def Let_def truthy_opt_def label_text_def parse_doc1
        new_record_def rec_online_def d)
qed

lemma mock_drugbank:
  "drugbank_step mock_clients True drug1 (rec_online, [Search drug1, Fetch url1]) =
     Inr (rec_online\<lparr>source := Some (SRC_ONLINE @ ascii '' + '' @ SRC_DRUGBANK)\<rparr>,
          [Search drug1, Fetch url1, Query drug1, Pick detail_full])"
proof -
  have t: "truthy detail_full" by (simp add: detail_full_def)
  have s: "SRC_ONLINE \<noteq> []" by (simp add: SRC_ONLINE_def ascii_def)
  show ?thesis
    by (simp add: drugbank_step_def mock_clients_def Let_def t pick_full ebind_def content_fields_def
      rec_online_def keep_or_def truthy_opt_def label_text_def UNANNOTATED_def s)
qed

lemma mock_offline:
  "offline_step mock_clients None drug1
     (rec_online\<lparr>source := Some (SRC_ONLINE @ ascii '' + '' @ SRC_DRUGBANK)\<rparr>,
      [Search drug1, Fetch url1, Query drug1, Pick detail_full]) =
   Inr (rec_online\<lparr>source := Some (SRC_ONLINE @ ascii '' + '' @ SRC_DRUGBANK)\<rparr>,
        [Search drug1, Fetch url1, Query drug1, Pick detail_full])"
  by (simp add: offline_step_def content_fields_def rec_online_def)

lemma mock_resolve:
  "resolve mock_clients True None True drug1 [] =
     Inr (rec_final, [Search drug1, Fetch url1, Query drug1, Pick detail_full])"
proof -
  have "resolve mock_clients True None True drug1 [] =
      Inr (fill_defaults (rec_online\<lparr>source := Some (SRC_ONLINE @ ascii '' + '' @ SRC_DRUGBANK)\<rparr>),
           [Search drug1, Fetch url1, Query drug1, Pick detail_full])"
    unfolding resolve_def mock_online mock_drugbank ebind_def sum.case mock_offline by simp
  moreover have "fill_defaults (rec_online\<lparr>source := Some (SRC_ONLINE @ ascii '' + '' @ SRC_DRUGBANK)\<rparr>)
      = rec_final"
    by (simp add: fill_defaults_def rec_online_def rec_final_def Let_def UNANNOTATED_def
        truthy_opt_def SRC_ONLINE_def ascii_def)
  ultimately show ?thesis by simp
qed







text \<open>
  C2. In the record a resolution returns, a field that is non-empty after the online
  step has the value the online step gave it, and a field that is non-empty after the
  DrugBank step has the value it had then: no later step overwrites it. In particular
  a field for which the online page has the section content \<open>s\<close> ends as \<open>s\<close>,
  whatever DrugBank and the offline file would have yielded.
\<close>
theorem first_non_empty_wins:
  assumes "resolve c uo dir ud nm log = Inr (r, log')"
  shows
    "(truthy (get_field f (fst (online_step c uo nm (new_record nm, log)))) \<longrightarrow>
        get_field f r = get_field f (fst (online_step c uo nm (new_record nm, log)))) \<and>
     (\<forall>r2 l2. drugbank_step c ud nm (online_step c uo nm (new_record nm, log)) = Inr (r2, l2) \<and>
              truthy (get_field f r2) \<longrightarrow> get_field f r = get_field f r2) \<and>
     (\<forall>s. uo \<and> truthy_opt (online_text c nm) \<and>
          parse_cn_label_text (label_text (online_text c nm)) f = Some s \<and> s \<noteq> [] \<longrightarrow>
          get_field f r = PStr s)"
proof (intro conjI allI impI)
  assume "truthy (get_field f (fst (online_step c uo nm (new_record nm, log))))"
  then show "get_field f r = get_field f (fst (online_step c uo nm (new_record nm, log)))"
    by (rule resolve_keeps_online [OF assms])
next
  fix r2 l2
  assume a: "drugbank_step c ud nm (online_step c uo nm (new_record nm, log)) = Inr (r2, l2) \<and>
             truthy (get_field f r2)"
  from assms obtain r2' l2' r3 where
    d: "drugbank_step c ud nm (online_step c uo nm (new_record nm, log)) = Inr (r2', l2')" and
    o: "offline_step c dir nm (r2', l2') = Inr (r3, log')" and r: "r = fill_defaults r3"
    by (auto simp: resolve_cases)
  from a d have e: "r2' = r2" "l2' = l2" by simp_all
  have "get_field f r3 = get_field f r2"
    using offline_step_keeps [OF o [unfolded e]] a by simp
  then show "get_field f r = get_field f r2"
    using a by (simp add: r fill_defaults_field)
next
  fix s
  assume a: "uo \<and> truthy_opt (online_text c nm) \<and>
          parse_cn_label_text (label_text (online_text c nm)) f = Some s \<and> s \<noteq> []"
  then have v: "get_field f (fst (online_step c uo nm (new_record nm, log))) = PStr s"
    by (simp add: online_step_fst get_field_assign)
  then have "truthy (get_field f (fst (online_step c uo nm (new_record nm, log))))"
    using a by simp
  from resolve_keeps_online [OF assms this] v show "get_field f r = PStr s" by simp
qed

lemma mock_online_text: "online_text mock_clients drug1 = Some doc1"
proof -
  have d: "doc1 \<noteq> []" by (simp add: doc1_def)
  show ?thesis by (simp add: online_text_def mock_clients_def Let_def truthy_opt_def d)
qed

text \<open>
  The online page gives the indications "A B C", DrugBank gives "Z": the record has
  "A B C".
\<close>
theorem first_non_empty_wins_witness:
  "resolve mock_clients True None True drug1 [] =
     Inr (rec_final, [Search drug1, Fetch url1, Query drug1, Pick detail_full]) \<and>
   parse_cn_label_text (label_text (online_text mock_clients drug1)) Indications
     = Some [0x41, 0x20, 0x42, 0x20, 0x43] \<and>
   map_sum id (\<lambda>p. p Indications) (pick_fields mock_clients (query_by_name mock_clients drug1))
     = Inr (PStr [0x5A]) \<and>
   get_field Indications rec_final = PStr [0x41, 0x20, 0x42, 0x20, 0x43]"
proof -
  note w = first_non_empty_wins [OF mock_resolve, of Indications]
  have p: "parse_cn_label_text (label_text (online_text mock_clients drug1)) Indications
     = Some [0x41, 0x20, 0x42, 0x20, 0x43]"
    by (simp add: mock_online_text label_text_def parse_doc1)
  have q: "map_sum id (\<lambda>p. p Indications) (pick_fields mock_clients (query_by_name mock_clients drug1))
     = Inr (PStr [0x5A])"
    by (simp add: mock_clients_def pick_full)
  have t: "truthy_opt (online_text mock_clients drug1)"
    by (simp add: mock_online_text truthy_opt_def doc1_def)
  from w have "\<forall>s. True \<and> truthy_opt (online_text mock_clients drug1) \<and>
          parse_cn_label_text (label_text (online_text mock_clients drug1)) Indications = Some s \<and>
          s \<noteq> [] \<longrightarrow> get_field Indications rec_final = PStr s"
    by (elim conjE)
  with p t have g: "get_field Indications rec_final = PStr [0x41, 0x20, 0x42, 0x20, 0x43]"
    by simp
  from mock_resolve p q g show ?thesis by (intro conjI)
qed



lemma utf8_ascii_step: "b < 0x80 \<Longrightarrow> utf8_decode_ignore (b # bs) = b # utf8_decode_ignore bs"
  by simp

lemma utf8_three_step:
  "0xE0 \<le> b \<Longrightarrow> b \<le> 0xEF \<Longrightarrow> ok_second3 b c1 \<Longrightarrow> is_cont c2 \<Longrightarrow>
   utf8_decode_ignore (b # c1 # c2 # r) =
     ((b - 0xE0) * 4096 + (c1 - 0x80) * 64 + (c2 - 0x80)) # utf8_decode_ignore r"
  by simp

lemma decode_doc1: "utf8_decode_ignore doc1_utf8 = doc1"
  unfolding doc1_utf8_def doc1_def
  by (simp add: utf8_ascii_step utf8_three_step is_cont_def ok_second3_def
      del: utf8_decode_ignore.simps(2))













section \<open>The text normalizer\<close>

lemma scalar2:
  "0xC2 \<le> b \<Longrightarrow> b \<le> 0xDF \<Longrightarrow> is_cont c1 \<Longrightarrow> is_scalar ((b - 0xC0) * 64 + (c1 - 0x80))"
  unfolding is_scalar_def is_cont_def by arith

lemma scalar3:
  "0xE0 \<le> b \<Longrightarrow> b \<le> 0xEF \<Longrightarrow> ok_second3 b c1 \<Longrightarrow> is_cont c2 \<Longrightarrow>
   is_scalar ((b - 0xE0) * 4096 + (c1 - 0x80) * 64 + (c2 - 0x80))"
  unfolding is_scalar_def is_cont_def ok_second3_def by (simp split: if_splits; arith)

lemma scalar4:
  "0xF0 \<le> b \<Longrightarrow> b \<le> 0xF4 \<Longrightarrow> ok_second4 b c1 \<Longrightarrow> is_cont c2 \<Longrightarrow> is_cont c3 \<Longrightarrow>
   is_scalar ((b - 0xF0) * 262144 + (c1 - 0x80) * 4096 + (c2 - 0x80) * 64 + (c3 - 0x80))"
  unfolding is_scalar_def is_cont_def ok_second4_def by (simp split: if_splits; arith)

lemma utf8_step:
  "\<exists>pre rest. utf8_decode_ignore (b # bs) = pre @ utf8_decode_ignore rest \<and> suffix rest bs \<and>
      length pre \<le> 1 \<and> (\<forall>c\<in>set pre. is_scalar c)"
proof -
  define G where "G x \<longleftrightarrow> (\<exists>pre rest. x = pre @ utf8_decode_ignore rest \<and> suffix rest bs \<and>
      length pre \<le> 1 \<and> (\<forall>c\<in>set pre. is_scalar c))" for x
  have drop: "G (utf8_decode_ignore bs)"
    unfolding G_def by (rule exI [of _ "[]"], rule exI [of _ bs]) simp
  have keep: "G (c # utf8_decode_ignore r)" if "suffix r bs" "is_scalar c" for c r
    unfolding G_def using that by (intro exI [of _ "[c]"] exI [of _ r]) simp
  have dropped: "G (utf8_decode_ignore (b # bs))"
    if "utf8_decode_ignore (b # bs) = utf8_decode_ignore bs"
    using drop by (simp only: that)
  have kept: "G (utf8_decode_ignore (b # bs))"
    if "utf8_decode_ignore (b # bs) = c # utf8_decode_ignore r" "suffix r bs" "is_scalar c" for c r
    using keep [OF that(2,3)] by (simp only: that(1))
  consider (a) "b < 0x80"
    | (two) "0xC2 \<le> b" "b \<le> 0xDF"
    | (three) "0xE0 \<le> b" "b \<le> 0xEF"
    | (four) "0xF0 \<le> b" "b \<le> 0xF4"
    | (bad) "0x80 \<le> b" "\<not> (0xC2 \<le> b \<and> b \<le> 0xDF)" "\<not> (0xE0 \<le> b \<and> b \<le> 0xEF)" "\<not> (0xF0 \<le> b \<and> b \<le> 0xF4)"
    by linarith
  then have "G (utf8_decode_ignore (b # bs))"
  proof cases
    case a
    then have "is_scalar b" by (simp add: is_scalar_def)
    moreover have "utf8_decode_ignore (b # bs) = b # utf8_decode_ignore bs"
      by (subst utf8_decode_ignore.simps(2)) (simp add: a del: utf8_decode_ignore.simps)
    ultimately show ?thesis by (intro kept [of b bs]) simp_all
  next
    case two
    show ?thesis
    proof (cases bs)
      case Nil
      have "utf8_decode_ignore (b # bs) = utf8_decode_ignore bs"
        by (subst utf8_decode_ignore.simps(2)) (use two Nil in \<open>simp del: utf8_decode_ignore.simps\<close>)
      then show ?thesis by (rule dropped)
    next
      case (Cons c1 r)
      show ?thesis
      proof (cases "is_cont c1")
        case True
        have "utf8_decode_ignore (b # bs) = ((b - 0xC0) * 64 + (c1 - 0x80)) # utf8_decode_ignore r"
          by (subst utf8_decode_ignore.simps(2))
             (use two True Cons in \<open>simp del: utf8_decode_ignore.simps\<close>)
        moreover have "suffix r bs" by (simp add: Cons suffix_ConsI)
        ultimately show ?thesis using scalar2 [OF two True] by (rule kept)
      next
        case False
        have "utf8_decode_ignore (b # bs) = utf8_decode_ignore bs"
          by (subst utf8_decode_ignore.simps(2))
             (use two False Cons in \<open>simp del: utf8_decode_ignore.simps\<close>)
        then show ?thesis by (rule dropped)
      qed
    qed
  next
    case three
    then have nb: "\<not> b < 0x80" "\<not> (0xC2 \<le> b \<and> b \<le> 0xDF)" by simp_all
    show ?thesis
    proof (cases "\<exists>c1 c2 r. bs = c1 # c2 # r \<and> ok_second3 b c1 \<and> is_cont c2")
      case True
      then obtain c1 c2 r where bs: "bs = c1 # c2 # r" and ok: "ok_second3 b c1" "is_cont c2"
        by blast
      have "utf8_decode_ignore (b # bs) =
          ((b - 0xE0) * 4096 + (c1 - 0x80) * 64 + (c2 - 0x80)) # utf8_decode_ignore r"
        by (subst utf8_decode_ignore.simps(2))
           (use three nb bs ok in \<open>simp del: utf8_decode_ignore.simps\<close>)
      moreover have "suffix r bs" by (simp add: bs suffix_ConsI)
      ultimately show ?thesis using scalar3 [OF three ok] by (rule kept)
    next
      case False
      have "utf8_decode_ignore (b # bs) = utf8_decode_ignore bs"
        by (subst utf8_decode_ignore.simps(2))
           (use three nb False in \<open>auto simp del: utf8_decode_ignore.simps split: list.splits\<close>)
      then show ?thesis by (rule dropped)
    qed
  next
    case four
    then have nb: "\<not> b < 0x80" "\<not> (0xC2 \<le> b \<and> b \<le> 0xDF)" "\<not> (0xE0 \<le> b \<and> b \<le> 0xEF)"
      by simp_all
    show ?thesis
    proof (cases "\<exists>c1 c2 c3 r. bs = c1 # c2 # c3 # r \<and> ok_second4 b c1 \<and> is_cont c2 \<and> is_cont c3")
      case True
      then obtain c1 c2 c3 r where bs: "bs = c1 # c2 # c3 # r"
        and ok: "ok_second4 b c1" "is_cont c2" "is_cont c3"
        by blast
      have "utf8_decode_ignore (b # bs) =
          ((b - 0xF0) * 262144 + (c1 - 0x80) * 4096 + (c2 - 0x80) * 64 + (c3 - 0x80))
          # utf8_decode_ignore r"
        by (subst utf8_decode_ignore.simps(2))
           (use four nb bs ok in \<open>simp del: utf8_decode_ignore.simps\<close>)
      moreover have "suffix r bs" by (simp add: bs suffix_ConsI)
      ultimately show ?thesis using scalar4 [OF four ok] by (rule kept)
    next
      case False
      have "utf8_decode_ignore (b # bs) = utf8_decode_ignore bs"
        by (subst utf8_decode_ignore.simps(2))
           (use four nb False in \<open>auto simp del: utf8_decode_ignore.simps split: list.splits\<close>)
      then show ?thesis by (rule dropped)
    qed
  next
    case bad
    have "utf8_decode_ignore (b # bs) = utf8_decode_ignore bs"
      by (subst utf8_decode_ignore.simps(2)) (use bad in \<open>auto simp del: utf8_decode_ignore.simps\<close>)
    then show ?thesis by (rule dropped)
  qed
  then show ?thesis by (simp only: G_def)
qed

lemma utf8_decode_props:
  "length (utf8_decode_ignore b) \<le> length b \<and> (\<forall>c\<in>set (utf8_decode_ignore b). is_scalar c)"
proof (induction b rule: length_induct)
  case (1 xs)
  show ?case
  proof (cases xs)
    case Nil
    then show ?thesis by simp
  next
    case (Cons b bs)
    from utf8_step [of b bs] obtain pre rest where
      e: "utf8_decode_ignore (b # bs) = pre @ utf8_decode_ignore rest" and
      s: "suffix rest bs" and l: "length pre \<le> 1" and v: "\<forall>c\<in>set pre. is_scalar c"
      by blast
    from s have sl: "length rest \<le> length bs" by (rule suffix_length_le)
    then have "length rest < length xs" by (simp add: Cons)
    with 1 have ih: "length (utf8_decode_ignore rest) \<le> length rest"
      "\<forall>c\<in>set (utf8_decode_ignore rest). is_scalar c" by blast+
    have "length (utf8_decode_ignore xs) \<le> length xs"
      using ih(1) sl l by (simp add: Cons e del: utf8_decode_ignore.simps)
    moreover have "\<forall>c\<in>set (utf8_decode_ignore xs). is_scalar c"
      using ih(2) v by (auto simp add: Cons e simp del: utf8_decode_ignore.simps)
    ultimately show ?thesis by blast
  qed
qed

lemma utf8_decode_ascii: "\<forall>c\<in>set b. c < 0x80 \<Longrightarrow> utf8_decode_ignore b = b"
  by (induction b) simp_all

text \<open>
  C10, as the code has it. \<^verbatim>\<open>ensure_utf8\<close> is total on byte strings: when no encoding is
  detected (or UTF-8 is) the result is the lenient UTF-8 decoding; with another detected
  encoding it is what that codec gives, and the lenient UTF-8 decoding when the codec
  raises. The lenient decoding drops what it cannot decode: its result is no longer than
  the input, holds only Unicode scalar values, and is the input itself when that is
  ASCII. The empty input gives the empty string (no codec makes text of nothing). A
  non-empty input may give the empty string too.
\<close>
theorem ensure_utf8_lenient:
  "(chardet_detect w b = None \<or> chardet_detect w b = Some [] \<or>
      chardet_detect w b = Some (ascii ''utf-8'') \<longrightarrow>
      ensure_utf8 w b = utf8_decode_ignore b) \<and>
   (\<forall>e. chardet_detect w b = Some e \<and> e \<noteq> [] \<and> e \<noteq> ascii ''utf-8'' \<longrightarrow>
      ensure_utf8 w b = (case codec_decode w e b of Inr s \<Rightarrow> s | Inl x \<Rightarrow> utf8_decode_ignore b)) \<and>
   length (utf8_decode_ignore b) \<le> length b \<and>
   (\<forall>c\<in>set (utf8_decode_ignore b). is_scalar c) \<and>
   ((\<forall>c\<in>set b. c < 0x80) \<longrightarrow> utf8_decode_ignore b = b) \<and>
   ((\<forall>e s. codec_decode w e [] = Inr s \<longrightarrow> s = []) \<longrightarrow> ensure_utf8 w [] = [])"
proof -
  have a: "chardet_detect w b = None \<or> chardet_detect w b = Some [] \<or>
      chardet_detect w b = Some (ascii ''utf-8'') \<longrightarrow>
      ensure_utf8 w b = utf8_decode_ignore b"
    by (auto simp: ensure_utf8_def py_decode_def)
  have b: "\<forall>e. chardet_detect w b = Some e \<and> e \<noteq> [] \<and> e \<noteq> ascii ''utf-8'' \<longrightarrow>
      ensure_utf8 w b = (case codec_decode w e b of Inr s \<Rightarrow> s | Inl x \<Rightarrow> utf8_decode_ignore b)"
    by (auto simp: ensure_utf8_def py_decode_def split: sum.splits)
  have c: "length (utf8_decode_ignore b) \<le> length b"
    and d: "\<forall>c\<in>set (utf8_decode_ignore b). is_scalar c"
    using utf8_decode_props [of b] by blast+
  have e: "(\<forall>c\<in>set b. c < 0x80) \<longrightarrow> utf8_decode_ignore b = b"
    using utf8_decode_ascii [of b] by blast
  have f: "(\<forall>e s. codec_decode w e [] = Inr s \<longrightarrow> s = []) \<longrightarrow> ensure_utf8 w [] = []"
    by (auto simp: ensure_utf8_def py_decode_def split: option.splits sum.splits)
  from a b c d e f show ?thesis by (intro conjI)
qed

text \<open>No encoding detected: the page bytes are decoded as UTF-8.\<close>
theorem ensure_utf8_lenient_witness:
  "chardet_detect world0 doc1_utf8 = None \<and>
   ensure_utf8 world0 doc1_utf8 = doc1 \<and>
   length doc1 \<le> length doc1_utf8 \<and>
   ensure_utf8 world0 [] = []"
proof -
  note w = ensure_utf8_lenient [of world0 doc1_utf8]
  have n: "chardet_detect world0 doc1_utf8 = None" by (simp add: world0_def)
  from w have "chardet_detect world0 doc1_utf8 = None \<or> chardet_detect world0 doc1_utf8 = Some [] \<or>
      chardet_detect world0 doc1_utf8 = Some (ascii ''utf-8'') \<longrightarrow>
      ensure_utf8 world0 doc1_utf8 = utf8_decode_ignore doc1_utf8"
    by (elim conjE)
  with n have e: "ensure_utf8 world0 doc1_utf8 = doc1" by (simp only: decode_doc1 simp_thms)
  from w have "length (utf8_decode_ignore doc1_utf8) \<le> length doc1_utf8" by (elim conjE)
  then have l: "length doc1 \<le> length doc1_utf8" by (simp only: decode_doc1)
  have "\<forall>e s. codec_decode world0 e [] = Inr s \<longrightarrow> s = []" by (simp add: world0_def)
  with ensure_utf8_lenient [of world0 "[]"] have z: "ensure_utf8 world0 [] = []" by blast
  from n e l z show ?thesis by (intro conjI)
qed

text \<open>
  C10 as stated fails: three bytes, the byte order mark alone, are decoded to the empty
  string.
\<close>
theorem ensure_utf8_empty_result_counterexample:
  "BOM_UTF8 \<noteq> [] \<and>
   chardet_detect world_bom BOM_UTF8 = Some (ascii ''UTF-8-SIG'') \<and>
   ensure_utf8 world_bom BOM_UTF8 = []"
  by (simp add: ensure_utf8_def py_decode_def world_bom_def world0_def BOM_UTF8_def ascii_def)

end
